theory Spec2Isabelle
  imports Complex_Main "HOL-Library.Word"
begin

section \<open>Data model (vvg.hpp, renderer.cpp)\<close>

text \<open>
  The renderer of vvg, a nanovg backend: it stores the draw calls of a frame and replays
  them on \<open>flush\<close>. Member names lose their trailing underscore (\<open>texID_\<close> is
  \<open>texID\<close>). \<open>unsigned int\<close> and \<open>int\<close> are 32-bit words (the conversions
  between them keep the bits); \<open>std::size_t\<close> values are sizes of vectors held in memory
  and are natural numbers.

  A \<open>float\<close> is a value of the type variable \<open>'f\<close>: the float object, on which equality
  is equality of the representation (what \<open>memcmp\<close> compares, what \<open>memcpy\<close> copies).
  The arithmetic on floats, the conversion from \<open>unsigned int\<close>, the literals and the
  function \<open>nvgTransformInverse\<close> of the nanovg library are the fields of a record of
  operations that every function working on floats takes as its first argument, so that
  a theorem holds for every arithmetic, IEEE-754 single precision among them.
\<close>

type_synonym uint = "32 word"

record 'f FloatOps =
  f_add :: "'f \<Rightarrow> 'f \<Rightarrow> 'f"
  f_mul :: "'f \<Rightarrow> 'f \<Rightarrow> 'f"
  f_div :: "'f \<Rightarrow> 'f \<Rightarrow> 'f"
  f_sqrt :: "'f \<Rightarrow> 'f"
  f_less :: "'f \<Rightarrow> 'f \<Rightarrow> bool"
  f_zero :: "'f"
  f_one :: "'f"
  f_half :: "'f"
  f_neg_half :: "'f"
  f_of_uint :: "uint \<Rightarrow> 'f"
  nvgTransformInverse :: "'f list \<Rightarrow> 'f list"

datatype 'f Vec2 = Vec2 'f 'f

datatype 'f Vec4 = Vec4 'f 'f 'f 'f

text \<open>\<open>Mat4\<close> is \<open>float[4][4]\<close>: four rows of four cells, \<open>m[i][j]\<close> is \<open>m ! i ! j\<close>.\<close>

type_synonym 'f Mat4 = "'f list list"

record 'f UniformData =
  viewSize :: "'f Vec2"
  u_type :: uint
  texType :: uint
  innerColor :: "'f Vec4"
  outerColor :: "'f Vec4"
  scissorMat :: "'f Mat4"
  paintMat :: "'f Mat4"

record Path =
  fillOffset :: nat
  fillCount :: nat
  strokeOffset :: nat
  strokeCount :: nat

datatype vk_Format = r8g8b8a8Unorm | r8Unorm | s8Uint | other_Format nat

text \<open>
  A \<open>Texture\<close> (vvg.hpp): its \<open>viewableImage_\<close> is a device handle, and the model
  takes the texture itself for its image view.
\<close>

record Texture =
  tex_format :: vk_Format
  tex_id :: uint
  tex_width :: uint
  tex_height :: uint

text \<open>
  A descriptor set as \<open>flush\<close> writes it: the range of the uniform buffer and the image
  view bound to it.
\<close>

record DescriptorSet =
  uniformOffset :: nat
  uniformRange :: nat
  imageView :: Texture

record 'f DrawData =
  descriptorSet :: "DescriptorSet option"
  uniformData :: "'f UniformData"
  dtexture :: uint
  paths :: "Path list"
  triangleOffset :: nat
  triangleCount :: nat

text \<open>
  The types of nanovg.h that the renderer reads. \<open>NVGcolor\<close> is four floats, as
  \<open>Vec4\<close> is. An \<open>NVGpath\<close> gives its vertices as a pointer and a count
  (\<open>fill\<close>, \<open>nfill\<close>): here the list of these \<open>nfill\<close> vertices.
\<close>

datatype 'f NVGvertex = NVGvertex 'f 'f 'f 'f

record 'f NVGpaint =
  paint_xform :: "'f list"
  paint_extent :: "'f list"
  paint_radius :: "'f"
  paint_feather :: "'f"
  paint_innerColor :: "'f Vec4"
  paint_outerColor :: "'f Vec4"
  paint_image :: "32 word"

record 'f NVGscissor =
  scissor_xform :: "'f list"
  scissor_extent :: "'f list"

record 'f NVGpath =
  path_fill :: "'f NVGvertex list"
  path_stroke :: "'f NVGvertex list"

subsection \<open>The device, seen from the renderer\<close>

datatype Pipeline = fanPipeline | stripPipeline | listPipeline

text \<open>
  The commands \<open>record\<close> writes into a command buffer. The counts and offsets of
  \<open>cmdDraw\<close> are the \<open>size_t\<close> values the renderer passes.
\<close>

datatype Command =
    cmdBindVertexBuffers
  | cmdBindDescriptorSets "DescriptorSet option"
  | cmdBindPipeline Pipeline
  | cmdDraw nat nat nat nat

datatype BufferUsage = usage_uniformBuffer | usage_vertexBuffer

text \<open>
  \<open>trace\<close> below lists, in order, the calls the renderer has made to its collaborators:
  nanovg's \<open>nvgTransformInverse\<close> and the device (images, buffers, descriptor pool,
  uploads, and the submission of a command buffer or its hand-over to the swapchain
  renderer). Device calls are taken to succeed: a failing one throws out of the renderer.
\<close>

datatype 'f Call =
    call_nvgTransformInverse "'f list"
  | createImage Texture "8 word list option"
  | destroyImage Texture
  | createBuffer BufferUsage nat
  | createDescriptorPool uint
  | resetDescriptorPool
  | bufferUpdate BufferUsage nat
  | renderBlock "Command list"
  | submit_and_wait "Command list"

text \<open>
  A \<open>vpp::Buffer\<close>: the usage and the size it was created with (\<open>bufInfo\<close>), and the
  size of the device memory bound to it, which \<open>memorySize()\<close> returns (vpp is not in
  the sources). The device chooses the memory size when the buffer is created:
  \<open>bufferMemory\<close> of the renderer below gives it for the size asked. A buffer that was
  never created has no memory.
\<close>

record Buffer =
  buf_usage :: BufferUsage
  buf_size :: nat
  buf_memory :: nat

definition memorySize :: "Buffer option \<Rightarrow> nat" where
  "memorySize b = (case b of None \<Rightarrow> 0 | Some buf \<Rightarrow> buf_memory buf)"

record DescriptorPool =
  maxSets :: uint

record 'f Renderer =
  swapchain :: bool
  texID :: uint
  textures :: "Texture list"
  uniformBuffer :: "Buffer option"
  vertexBuffer :: "Buffer option"
  drawDatas :: "'f DrawData list"
  vertices :: "'f NVGvertex list"
  width :: uint
  height :: uint
  descriptorPool :: "DescriptorPool option"
  descriptorPoolSize :: uint
  dummyTexture :: Texture
  edgeAA :: bool
  minUniformBufferOffsetAlignment :: nat
  bufferMemory :: "nat \<Rightarrow> nat"
  trace :: "'f Call list"

datatype error = NullPointerDereference

text \<open>
  The renderer after its constructor (\<open>init\<close>): no texture, no buffer, no pool, and
  the 2 x 2 dummy texture with id \<open>(unsigned int) -1\<close>, which is not in \<open>textures\<close>.
  The arguments are the target kind, the device's uniform offset alignment and the
  memory size the device gives a buffer of a size.
\<close>

definition init :: "bool \<Rightarrow> nat \<Rightarrow> (nat \<Rightarrow> nat) \<Rightarrow> 'f Renderer" where
  "init sc al mem =
     \<lparr>swapchain = sc, texID = 0, textures = [], uniformBuffer = None, vertexBuffer = None,
      drawDatas = [], vertices = [], width = 0, height = 0, descriptorPool = None,
      descriptorPoolSize = 0,
      dummyTexture = \<lparr>tex_format = r8g8b8a8Unorm, tex_id = - 1, tex_width = 2, tex_height = 2\<rparr>,
      edgeAA = False, minUniformBufferOffsetAlignment = al, bufferMemory = mem, trace = []\<rparr>"

section \<open>Texture registry\<close>

text \<open>\<open>std::vector::erase\<close> at the iterator \<open>std::find_if\<close> returned: the first match goes.\<close>

fun erase_first :: "('a \<Rightarrow> bool) \<Rightarrow> 'a list \<Rightarrow> 'a list" where
  "erase_first P [] = []"
| "erase_first P (x # xs) = (if P x then xs else x # erase_first P xs)"

definition texture :: "'f Renderer \<Rightarrow> uint \<Rightarrow> Texture option" where
  "texture r i = find (\<lambda>tex. tex_id tex = i) (textures r)"

definition createTexture ::
  "vk_Format \<Rightarrow> uint \<Rightarrow> uint \<Rightarrow> 8 word list option \<Rightarrow> 'f Renderer \<Rightarrow> uint \<times> 'f Renderer" where
  "createTexture fmt w h data r =
     (let i = texID r + 1;
          tex = \<lparr>tex_format = fmt, tex_id = i, tex_width = w, tex_height = h\<rparr>
      in (i, r\<lparr>texID := i, textures := textures r @ [tex],
                trace := trace r @ [createImage tex data]\<rparr>))"

definition deleteTexture :: "uint \<Rightarrow> 'f Renderer \<Rightarrow> bool \<times> 'f Renderer" where
  "deleteTexture i r =
     (case find (\<lambda>tex. tex_id tex = i) (textures r) of
        None \<Rightarrow> (False, r)
      | Some tex \<Rightarrow>
          (True, r\<lparr>textures := erase_first (\<lambda>tex. tex_id tex = i) (textures r),
                    trace := trace r @ [destroyImage tex]\<rparr>))"

text \<open>
  \<open>getTextureSize\<close> of the C interface: \<open>image\<close> is an \<open>int\<close>, \<open>w\<close> and \<open>h\<close> are
  pointers to \<open>int\<close>. The model takes the values behind the pointers and returns them
  with the result.
\<close>

definition getTextureSize ::
  "'f Renderer \<Rightarrow> 32 word \<Rightarrow> 32 word \<times> 32 word \<Rightarrow> 32 word \<times> (32 word \<times> 32 word)" where
  "getTextureSize r img wh =
     (case texture r img of
        None \<Rightarrow> (0, wh)
      | Some tex \<Rightarrow> (1, (tex_width tex, tex_width tex)))"

section \<open>Frame session\<close>

definition start :: "uint \<Rightarrow> uint \<Rightarrow> 'f Renderer \<Rightarrow> 'f Renderer" where
  "start w h r = r\<lparr>width := w, height := h, vertices := [], drawDatas := []\<rparr>"

text \<open>The body of \<open>Renderer::cancel\<close> is empty.\<close>

definition cancel :: "'f Renderer \<Rightarrow> 'f Renderer" where
  "cancel r = r"

subsection \<open>Paint encoder\<close>

definition typeColor :: uint where "typeColor = 1"
definition typeGradient :: uint where "typeGradient = 2"
definition typeTexture :: uint where "typeTexture = 3"
definition texTypeRGBA :: uint where "texTypeRGBA = 1"
definition texTypeA :: uint where "texTypeA = 2"

text \<open>\<open>float m[4][4] {}\<close> and the assignment \<open>m[i][j] = v\<close>.\<close>

definition zeroMat :: "'f FloatOps \<Rightarrow> 'f Mat4" where
  "zeroMat ops = replicate 4 (replicate 4 (f_zero ops))"

definition mat_set :: "'f Mat4 \<Rightarrow> nat \<Rightarrow> nat \<Rightarrow> 'f \<Rightarrow> 'f Mat4" where
  "mat_set m i j v = m[i := (m ! i)[j := v]]"

text \<open>
  \<open>drawDatas_.emplace_back()\<close>: a value-initialised \<open>DrawData\<close>, all of whose uniform
  fields \<open>parsePaint\<close> then writes.
\<close>

definition emptyDrawData :: "'f FloatOps \<Rightarrow> 'f DrawData" where
  "emptyDrawData ops =
     \<lparr>descriptorSet = None,
      uniformData = \<lparr>viewSize = Vec2 (f_zero ops) (f_zero ops), u_type = 0, texType = 0,
        innerColor = Vec4 (f_zero ops) (f_zero ops) (f_zero ops) (f_zero ops),
        outerColor = Vec4 (f_zero ops) (f_zero ops) (f_zero ops) (f_zero ops),
        scissorMat = zeroMat ops, paintMat = zeroMat ops\<rparr>,
      dtexture = 0, paths = [], triangleOffset = 0, triangleCount = 0\<rparr>"

text \<open>
  The first block of \<open>parsePaint\<close>: the paint kind, the texture kind and the texture id
  of the entry. \<open>tex->format()\<close> dereferences what \<open>texture\<close> returned, unchecked.
\<close>

definition parsePaint_type ::
  "'f Renderer \<Rightarrow> 'f NVGpaint \<Rightarrow> 'f DrawData \<Rightarrow> error + 'f DrawData" where
  "parsePaint_type r paint data =
     (if paint_image paint \<noteq> 0 then
        (case texture r (paint_image paint) of
           None \<Rightarrow> Inl NullPointerDereference
         | Some tex \<Rightarrow>
             (let formatID = (if tex_format tex = r8g8b8a8Unorm then texTypeRGBA else texTypeA)
              in Inr (data\<lparr>uniformData := (uniformData data)\<lparr>u_type := typeTexture,
                                                              texType := formatID\<rparr>,
                           dtexture := paint_image paint\<rparr>)))
      else if paint_innerColor paint = paint_outerColor paint then
        Inr (data\<lparr>uniformData := (uniformData data)\<lparr>u_type := typeColor, texType := 0\<rparr>\<rparr>)
      else
        Inr (data\<lparr>uniformData := (uniformData data)\<lparr>u_type := typeGradient, texType := 0\<rparr>\<rparr>))"

text \<open>
  The scissor block of \<open>parsePaint\<close>: the matrix, and the calls of
  \<open>nvgTransformInverse\<close> the block makes.
\<close>

definition parsePaint_scissorMat ::
  "'f FloatOps \<Rightarrow> 'f NVGpaint \<Rightarrow> 'f NVGscissor \<Rightarrow> 'f \<Rightarrow> 'f \<Rightarrow> 'f Mat4 \<times> 'f Call list" where
  "parsePaint_scissorMat ops paint scissor fringe strokeWidth =
     (let m = zeroMat ops;
          (m, calls) =
            (if f_less ops (scissor_extent scissor ! 0) (f_neg_half ops)
                \<or> f_less ops (scissor_extent scissor ! 1) (f_neg_half ops) then
               (let m = mat_set m 3 0 (f_one ops);
                    m = mat_set m 3 1 (f_one ops);
                    m = mat_set m 3 2 (f_one ops);
                    m = mat_set m 3 3 (f_one ops)
                in (m, []))
             else
               (let invxform = nvgTransformInverse ops (scissor_xform scissor);
                    m = mat_set m 0 0 (invxform ! 0);
                    m = mat_set m 0 1 (invxform ! 1);
                    m = mat_set m 1 0 (invxform ! 2);
                    m = mat_set m 1 1 (invxform ! 3);
                    m = mat_set m 2 0 (invxform ! 4);
                    m = mat_set m 2 1 (invxform ! 5);
                    m = mat_set m 2 2 (f_one ops);
                    m = mat_set m 3 0 (scissor_extent scissor ! 0);
                    m = mat_set m 3 1 (scissor_extent scissor ! 1);
                    m = mat_set m 3 2
                          (f_div ops
                             (f_sqrt ops
                                (f_add ops
                                   (f_mul ops (scissor_xform scissor ! 0) (scissor_xform scissor ! 0))
                                   (f_mul ops (scissor_xform scissor ! 2) (scissor_xform scissor ! 2))))
                             fringe);
                    m = mat_set m 3 3
                          (f_div ops
                             (f_sqrt ops
                                (f_add ops
                                   (f_mul ops (scissor_xform scissor ! 1) (scissor_xform scissor ! 1))
                                   (f_mul ops (scissor_xform scissor ! 3) (scissor_xform scissor ! 3))))
                             fringe)
                in (m, [call_nvgTransformInverse (scissor_xform scissor)])));
          m = mat_set m 0 3 (paint_radius paint);
          m = mat_set m 1 3 (paint_feather paint);
          m = mat_set m 2 3 strokeWidth
      in (m, calls))"

text \<open>The paint block of \<open>parsePaint\<close>.\<close>

definition parsePaint_paintMat ::
  "'f FloatOps \<Rightarrow> 'f NVGpaint \<Rightarrow> 'f \<Rightarrow> 'f \<Rightarrow> 'f Mat4 \<times> 'f Call list" where
  "parsePaint_paintMat ops paint fringe strokeWidth =
     (let m = zeroMat ops;
          invxform = nvgTransformInverse ops (paint_xform paint);
          m = mat_set m 0 0 (invxform ! 0);
          m = mat_set m 0 1 (invxform ! 1);
          m = mat_set m 1 0 (invxform ! 2);
          m = mat_set m 1 1 (invxform ! 3);
          m = mat_set m 2 0 (invxform ! 4);
          m = mat_set m 2 1 (invxform ! 5);
          m = mat_set m 2 2 (f_one ops);
          m = mat_set m 3 0 (paint_extent paint ! 0);
          m = mat_set m 3 1 (paint_extent paint ! 1);
          m = mat_set m 0 3
                (f_div ops
                   (f_add ops (f_mul ops strokeWidth (f_half ops)) (f_mul ops fringe (f_half ops)))
                   fringe)
      in (m, [call_nvgTransformInverse (paint_xform paint)]))"

text \<open>
  \<open>parsePaint\<close> returns a reference to the entry it appended: it is the last of
  \<open>drawDatas\<close> in the renderer returned here.
\<close>

definition parsePaint ::
  "'f FloatOps \<Rightarrow> 'f NVGpaint \<Rightarrow> 'f NVGscissor \<Rightarrow> 'f \<Rightarrow> 'f \<Rightarrow> 'f Renderer
     \<Rightarrow> error + 'f Renderer" where
  "parsePaint ops paint scissor fringe strokeWidth r =
     (let data = emptyDrawData ops;
          data = data\<lparr>uniformData := (uniformData data)
                   \<lparr>viewSize := Vec2 (f_of_uint ops (width r)) (f_of_uint ops (height r))\<rparr>\<rparr>
      in case parsePaint_type r paint data of
           Inl e \<Rightarrow> Inl e
         | Inr data \<Rightarrow>
             (let data = data\<lparr>uniformData := (uniformData data)
                           \<lparr>innerColor := paint_innerColor paint,
                            outerColor := paint_outerColor paint\<rparr>\<rparr>;
                  (sm, calls1) = parsePaint_scissorMat ops paint scissor fringe strokeWidth;
                  data = data\<lparr>uniformData := (uniformData data)\<lparr>scissorMat := sm\<rparr>\<rparr>;
                  (pm, calls2) = parsePaint_paintMat ops paint fringe strokeWidth;
                  data = data\<lparr>uniformData := (uniformData data)\<lparr>paintMat := pm\<rparr>\<rparr>
              in Inr (r\<lparr>drawDatas := drawDatas r @ [data],
                         trace := trace r @ calls1 @ calls2\<rparr>)))"

subsection \<open>fill, stroke, triangles\<close>

text \<open>
  One round of the loop of \<open>fill\<close> over the paths: the state is the path list of the
  entry and the vertex sequence.
\<close>

definition fill_path ::
  "bool \<Rightarrow> 'f NVGpath \<Rightarrow> Path list \<times> 'f NVGvertex list \<Rightarrow> Path list \<times> 'f NVGvertex list" where
  "fill_path aa path st =
     (let (ps, vs) = st;
          p = \<lparr>fillOffset = length vs, fillCount = length (path_fill path),
               strokeOffset = 0, strokeCount = 0\<rparr>;
          vs = vs @ path_fill path
      in if aa \<and> length (path_stroke path) > 0 then
           (ps @ [p\<lparr>strokeOffset := length vs, strokeCount := length (path_stroke path)\<rparr>],
            vs @ path_stroke path)
         else (ps @ [p], vs))"

definition stroke_path ::
  "'f NVGpath \<Rightarrow> Path list \<times> 'f NVGvertex list \<Rightarrow> Path list \<times> 'f NVGvertex list" where
  "stroke_path path st =
     (let (ps, vs) = st;
          p = \<lparr>fillOffset = 0, fillCount = 0,
               strokeOffset = length vs, strokeCount = length (path_stroke path)\<rparr>
      in (ps @ [p], vs @ path_stroke path))"

text \<open>Writing through the reference \<open>drawData\<close>: the last entry is replaced.\<close>

definition set_back :: "'a list \<Rightarrow> 'a \<Rightarrow> 'a list" where
  "set_back xs x = butlast xs @ [x]"

definition fill ::
  "'f FloatOps \<Rightarrow> 'f NVGpaint \<Rightarrow> 'f NVGscissor \<Rightarrow> 'f \<Rightarrow> 'f list \<Rightarrow> 'f NVGpath list
     \<Rightarrow> 'f Renderer \<Rightarrow> error + 'f Renderer" where
  "fill ops paint scissor fringe bounds pths r =
     (case parsePaint ops paint scissor fringe fringe r of
        Inl e \<Rightarrow> Inl e
      | Inr r1 \<Rightarrow>
          (let drawData = last (drawDatas r1);
               (ps, vs) = fold (fill_path (edgeAA r1)) pths (paths drawData, vertices r1)
           in Inr (r1\<lparr>drawDatas := set_back (drawDatas r1) (drawData\<lparr>paths := ps\<rparr>),
                       vertices := vs\<rparr>)))"

definition stroke ::
  "'f FloatOps \<Rightarrow> 'f NVGpaint \<Rightarrow> 'f NVGscissor \<Rightarrow> 'f \<Rightarrow> 'f \<Rightarrow> 'f NVGpath list
     \<Rightarrow> 'f Renderer \<Rightarrow> error + 'f Renderer" where
  "stroke ops paint scissor fringe strokeWidth pths r =
     (case parsePaint ops paint scissor fringe strokeWidth r of
        Inl e \<Rightarrow> Inl e
      | Inr r1 \<Rightarrow>
          (let drawData = last (drawDatas r1);
               (ps, vs) = fold stroke_path pths (paths drawData, vertices r1)
           in Inr (r1\<lparr>drawDatas := set_back (drawDatas r1) (drawData\<lparr>paths := ps\<rparr>),
                       vertices := vs\<rparr>)))"

definition triangles ::
  "'f FloatOps \<Rightarrow> 'f NVGpaint \<Rightarrow> 'f NVGscissor \<Rightarrow> 'f NVGvertex list
     \<Rightarrow> 'f Renderer \<Rightarrow> error + 'f Renderer" where
  "triangles ops paint scissor verts r =
     (case parsePaint ops paint scissor (f_one ops) (f_one ops) r of
        Inl e \<Rightarrow> Inl e
      | Inr r1 \<Rightarrow>
          (let drawData = last (drawDatas r1);
               drawData = drawData\<lparr>triangleOffset := length (vertices r1),
                                    triangleCount := length verts\<rparr>
           in Inr (r1\<lparr>drawDatas := set_back (drawDatas r1) drawData,
                       vertices := vertices r1 @ verts\<rparr>)))"

section \<open>Command emitter\<close>

text \<open>
  \<open>Renderer::record\<close>. The state of its loops is the local \<open>bound\<close> and the command
  buffer written so far.
\<close>

definition record_path :: "Path \<Rightarrow> int \<times> Command list \<Rightarrow> int \<times> Command list" where
  "record_path path st =
     (let (bound, cmds) = st;
          (bound, cmds) =
            (if fillCount path > 0 then
               (let (bound, cmds) =
                      (if bound \<noteq> 1 then (1, cmds @ [cmdBindPipeline fanPipeline])
                       else (bound, cmds))
                in (bound, cmds @ [cmdDraw (fillCount path) 1 (fillOffset path) 0]))
             else (bound, cmds));
          (bound, cmds) =
            (if strokeCount path > 0 then
               (let (bound, cmds) =
                      (if bound \<noteq> 2 then (2, cmds @ [cmdBindPipeline stripPipeline])
                       else (bound, cmds))
                in (bound, cmds @ [cmdDraw (strokeCount path) 1 (strokeOffset path) 0]))
             else (bound, cmds))
      in (bound, cmds))"

definition record_data :: "'f DrawData \<Rightarrow> int \<times> Command list \<Rightarrow> int \<times> Command list" where
  "record_data data st =
     (let (bound, cmds) = st;
          cmds = cmds @ [cmdBindDescriptorSets (descriptorSet data)];
          (bound, cmds) = fold record_path (paths data) (bound, cmds)
      in if triangleCount data > 0 then
           (let (bound, cmds) =
                  (if bound \<noteq> 3 then (3, cmds @ [cmdBindPipeline listPipeline])
                   else (bound, cmds))
            in (bound, cmds @ [cmdDraw (triangleCount data) 1 (triangleOffset data) 0]))
         else (bound, cmds))"

definition record_cmds :: "'f Renderer \<Rightarrow> Command list" where
  "record_cmds r = snd (fold record_data (drawDatas r) (0, [cmdBindVertexBuffers]))"

section \<open>flush\<close>

definition sizeof_UniformData :: nat where
  "sizeof_UniformData = 176"

definition sizeof_NVGvertex :: nat where
  "sizeof_NVGvertex = 16"

text \<open>
  \<open>vpp::BufferUpdate::alignUniform\<close> (vpp, not in the sources): the write offset goes up
  to the next multiple of the device's \<open>minUniformBufferOffsetAlignment\<close>.
\<close>

definition alignUniform :: "nat \<Rightarrow> nat \<Rightarrow> nat" where
  "alignUniform a off = (if a = 0 then off else ((off + a - 1) div a) * a)"

text \<open>
  The loop of \<open>flush\<close> over the entries: \<open>off\<close> is the offset of the buffer update.
  \<open>texture(data.texture)->viewableImage()\<close> dereferences what \<open>texture\<close> returned,
  unchecked.
\<close>

fun flush_update :: "'f Renderer \<Rightarrow> nat \<Rightarrow> 'f DrawData list \<Rightarrow> error + 'f DrawData list" where
  "flush_update r off [] = Inr []"
| "flush_update r off (data # ds) =
     (let offset = alignUniform (minUniformBufferOffsetAlignment r) off
      in case (if dtexture data \<noteq> 0 then
                 (case texture r (dtexture data) of
                    None \<Rightarrow> Inl NullPointerDereference
                  | Some tex \<Rightarrow> Inr tex)
               else Inr (dummyTexture r)) of
           Inl e \<Rightarrow> Inl e
         | Inr iv \<Rightarrow>
             (case flush_update r (offset + sizeof_UniformData) ds of
                Inl e \<Rightarrow> Inl e
              | Inr ds' \<Rightarrow>
                  Inr (data\<lparr>descriptorSet :=
                         Some \<lparr>uniformOffset = offset, uniformRange = sizeof_UniformData,
                               imageView = iv\<rparr>\<rparr> # ds')))"

text \<open>
  The three allocation steps of \<open>flush\<close>. \<open>drawDatas_.size()\<close> is compared with
  \<open>descriptorPoolSize_\<close> as a \<open>size_t\<close>, and stored into this \<open>unsigned int\<close> and
  into the pool's 32-bit counts by a narrowing conversion.
\<close>

definition flush_uniformBuffer :: "'f Renderer \<Rightarrow> 'f Renderer" where
  "flush_uniformBuffer r =
     (let uniformSize = sizeof_UniformData * length (drawDatas r)
      in if memorySize (uniformBuffer r) < uniformSize then
           r\<lparr>uniformBuffer := Some \<lparr>buf_usage = usage_uniformBuffer, buf_size = uniformSize,
                                     buf_memory = bufferMemory r uniformSize\<rparr>,
             trace := trace r @ [createBuffer usage_uniformBuffer uniformSize]\<rparr>
         else r)"

definition flush_vertexBuffer :: "'f Renderer \<Rightarrow> 'f Renderer" where
  "flush_vertexBuffer r =
     (let vertexSize = length (vertices r) * sizeof_NVGvertex
      in if memorySize (vertexBuffer r) < vertexSize then
           r\<lparr>vertexBuffer := Some \<lparr>buf_usage = usage_vertexBuffer, buf_size = vertexSize,
                                    buf_memory = bufferMemory r vertexSize\<rparr>,
             trace := trace r @ [createBuffer usage_vertexBuffer vertexSize]\<rparr>
         else r)"

definition flush_descriptorPool :: "'f Renderer \<Rightarrow> 'f Renderer" where
  "flush_descriptorPool r =
     (if length (drawDatas r) > unat (descriptorPoolSize r) then
        r\<lparr>descriptorPool := Some \<lparr>maxSets = of_nat (length (drawDatas r))\<rparr>,
          descriptorPoolSize := of_nat (length (drawDatas r)),
          trace := trace r @ [createDescriptorPool (of_nat (length (drawDatas r)))]\<rparr>
      else if descriptorPool r \<noteq> None then
        r\<lparr>trace := trace r @ [resetDescriptorPool]\<rparr>
      else r)"

text \<open>
  \<open>Renderer::flush\<close>. \<open>bufferUpdate\<close> in the trace carries the number of records or
  vertices uploaded (the vertex upload reads \<open>vertices_.size()\<close> vertices, none when the
  sequence is empty). On a swapchain the swapchain renderer calls back \<open>record\<close>
  (\<open>RenderImpl::build\<close>); on a framebuffer \<open>flush\<close> records, submits and waits.
  \<open>dlg_assert(iv)\<close> holds: the dummy texture exists since \<open>init\<close>.
\<close>

definition flush :: "'f Renderer \<Rightarrow> error + 'f Renderer" where
  "flush r =
     (if drawDatas r = [] then Inr r
      else
        (let r = flush_uniformBuffer r;
             r = flush_vertexBuffer r;
             r = flush_descriptorPool r
         in case flush_update r 0 (drawDatas r) of
              Inl e \<Rightarrow> Inl e
            | Inr ds \<Rightarrow>
                (let r = r\<lparr>drawDatas := ds,
                           trace := trace r @ [bufferUpdate usage_uniformBuffer (length ds),
                                               bufferUpdate usage_vertexBuffer (length (vertices r))]\<rparr>;
                     r = r\<lparr>trace := trace r @
                             [if swapchain r then renderBlock (record_cmds r)
                              else submit_and_wait (record_cmds r)]\<rparr>
                 in Inr (r\<lparr>vertices := [], drawDatas := []\<rparr>))))"

section \<open>Sequences of calls\<close>

datatype 'f api_call =
    call_start uint uint
  | call_fill "'f NVGpaint" "'f NVGscissor" 'f "'f list" "'f NVGpath list"
  | call_stroke "'f NVGpaint" "'f NVGscissor" 'f 'f "'f NVGpath list"
  | call_triangles "'f NVGpaint" "'f NVGscissor" "'f NVGvertex list"
  | call_cancel
  | call_flush
  | call_createTexture vk_Format uint uint "8 word list option"
  | call_deleteTexture uint

fun api_step :: "'f FloatOps \<Rightarrow> 'f api_call \<Rightarrow> 'f Renderer \<Rightarrow> error + 'f Renderer" where
  "api_step ops (call_start w h) r = Inr (start w h r)"
| "api_step ops (call_fill p s fr b ps) r = fill ops p s fr b ps r"
| "api_step ops (call_stroke p s fr sw ps) r = stroke ops p s fr sw ps r"
| "api_step ops (call_triangles p s vs) r = triangles ops p s vs r"
| "api_step ops call_cancel r = Inr (cancel r)"
| "api_step ops call_flush r = flush r"
| "api_step ops (call_createTexture f w h d) r = Inr (snd (createTexture f w h d r))"
| "api_step ops (call_deleteTexture i) r = Inr (snd (deleteTexture i r))"

fun run :: "'f FloatOps \<Rightarrow> 'f api_call list \<Rightarrow> 'f Renderer \<Rightarrow> error + 'f Renderer" where
  "run ops [] r = Inr r"
| "run ops (c # cs) r = (case api_step ops c r of Inl e \<Rightarrow> Inl e | Inr r' \<Rightarrow> run ops cs r')"

text \<open>
  Sequences of \<open>createTexture\<close> and \<open>deleteTexture\<close> calls: \<open>run_tex\<close> returns the ids
  the \<open>createTexture\<close> calls returned, in order, and the renderer.
\<close>

datatype tex_call =
    tex_create vk_Format uint uint "8 word list option"
  | tex_delete uint

fun creates :: "tex_call list \<Rightarrow> nat" where
  "creates [] = 0"
| "creates (tex_create f w h d # cs) = Suc (creates cs)"
| "creates (tex_delete i # cs) = creates cs"

fun run_tex :: "tex_call list \<Rightarrow> 'f Renderer \<Rightarrow> uint list \<times> 'f Renderer" where
  "run_tex [] r = ([], r)"
| "run_tex (tex_create f w h d # cs) r =
     (let (i, r1) = createTexture f w h d r;
          (ids, r2) = run_tex cs r1
      in (i # ids, r2))"
| "run_tex (tex_delete i # cs) r = run_tex cs (snd (deleteTexture i r))"

text \<open>
  A sequence of calls that wraps the counter with two textures alive at most: one
  \<open>createTexture\<close>, whose texture stays; then, for every \<open>k\<close> from 2 to \<open>2 ^ 32\<close>, a
  \<open>createTexture\<close> and the \<open>deleteTexture\<close> of the id it returned; then one more
  \<open>createTexture\<close>.
\<close>

definition create_delete :: "nat \<Rightarrow> tex_call list" where
  "create_delete k = [tex_create r8g8b8a8Unorm 4 4 None, tex_delete (of_nat k)]"

definition wrap_calls :: "tex_call list" where
  "wrap_calls =
     [tex_create r8g8b8a8Unorm 4 4 None]
     @ concat (map create_delete [2..<2 ^ 32 + 1])
     @ [tex_create r8g8b8a8Unorm 4 4 None]"

section \<open>Notions the properties are stated with\<close>

text \<open>The pipelines a command buffer binds, in order.\<close>

fun pipeline_binds :: "Command list \<Rightarrow> Pipeline list" where
  "pipeline_binds [] = []"
| "pipeline_binds (cmdBindPipeline p # cs) = p # pipeline_binds cs"
| "pipeline_binds (c # cs) = pipeline_binds cs"

text \<open>
  The pipeline each draw of an entry needs, in the order of the draws: fan for the fill
  vertices of a path, strip for its stroke vertices, list for the triangles of the entry.
\<close>

definition path_pipelines :: "Path \<Rightarrow> Pipeline list" where
  "path_pipelines p =
     (if fillCount p > 0 then [fanPipeline] else []) @
     (if strokeCount p > 0 then [stripPipeline] else [])"

definition required_pipelines :: "'f DrawData \<Rightarrow> Pipeline list" where
  "required_pipelines d =
     concat (map path_pipelines (paths d)) @
     (if triangleCount d > 0 then [listPipeline] else [])"

text \<open>
  The value of the local \<open>bound\<close> of \<open>record\<close> after a pipeline was bound, and after
  the draws that need the pipelines \<open>ps\<close>, in this order.
\<close>

fun pipeline_code :: "Pipeline \<Rightarrow> int" where
  "pipeline_code fanPipeline = 1"
| "pipeline_code stripPipeline = 2"
| "pipeline_code listPipeline = 3"

definition bound_after :: "Pipeline list \<Rightarrow> int" where
  "bound_after ps = (if ps = [] then 0 else pipeline_code (last ps))"

text \<open>The calls made between the renderer \<open>r\<close> and the later renderer \<open>r'\<close>.\<close>

definition new_calls :: "'f Renderer \<Rightarrow> 'f Renderer \<Rightarrow> 'f Call list" where
  "new_calls r r' = drop (length (trace r)) (trace r')"



text \<open>
  The capacity of a buffer after one allocation step of \<open>flush\<close>: the memory the device
  gives a buffer of the size needed when the capacity is below it, else the capacity.
\<close>

definition grown :: "(nat \<Rightarrow> nat) \<Rightarrow> nat \<Rightarrow> nat \<Rightarrow> nat" where
  "grown mem cap need = (if cap < need then mem need else cap)"

text \<open>No capacity of \<open>r\<close> is above the same capacity of \<open>r'\<close>.\<close>

definition capacities_le :: "'f Renderer \<Rightarrow> 'f Renderer \<Rightarrow> bool" where
  "capacities_le r r' =
     (memorySize (uniformBuffer r) \<le> memorySize (uniformBuffer r') \<and>
      memorySize (vertexBuffer r) \<le> memorySize (vertexBuffer r') \<and>
      unat (descriptorPoolSize r) \<le> unat (descriptorPoolSize r'))"


text \<open>
  The registry as the sequences of calls keep it while the counter has not wrapped: the
  ids of the registered textures are distinct, none is 0 and none is above the counter.
\<close>

definition registry_ok :: "'f Renderer \<Rightarrow> bool" where
  "registry_ok r =
     (distinct (map tex_id (textures r)) \<and>
      list_all (\<lambda>t. tex_id t \<noteq> 0 \<and> tex_id t \<le> texID r) (textures r))"

text \<open>
  Every nonzero texture id an entry refers to is registered.
\<close>

definition textures_registered :: "'f Renderer \<Rightarrow> 'f DrawData list \<Rightarrow> bool" where
  "textures_registered r ds =
     list_all (\<lambda>d. dtexture d = 0 \<or> texture r (dtexture d) \<noteq> None) ds"

text \<open>
  The binding \<open>flush\<close> gives an entry: the image view of its texture, or of the dummy
  texture when its texture id is 0.
\<close>

definition bound_view :: "'f Renderer \<Rightarrow> 'f DrawData \<Rightarrow> Texture option" where
  "bound_view r d = (if dtexture d = 0 then Some (dummyTexture r) else texture r (dtexture d))"

text \<open>
  The descriptor sets a command buffer binds, in order: one \<open>bindDescriptorSets\<close> for
  every entry \<open>record\<close> goes through.
\<close>

fun descriptor_binds :: "Command list \<Rightarrow> DescriptorSet option list" where
  "descriptor_binds [] = []"
| "descriptor_binds (cmdBindDescriptorSets ds # cs) = ds # descriptor_binds cs"
| "descriptor_binds (c # cs) = descriptor_binds cs"

section \<open>Exact arithmetic, and the inputs of the examples\<close>

text \<open>
  The operations on real numbers, without rounding. \<open>nvgTransformInverse\<close> is nanovg's
  (nanovg.c is not in the sources): the inverse of the affine map
  \<open>[a, b, c, d, e, f]\<close>, and the identity when the determinant is within \<open>1e-6\<close> of 0.
  The examples use values on which single precision is exact as well.
\<close>

definition exact_nvgTransformInverse :: "real list \<Rightarrow> real list" where
  "exact_nvgTransformInverse t =
     (let det = t ! 0 * t ! 3 - t ! 2 * t ! 1
      in if det > - (1 / 1000000) \<and> det < 1 / 1000000 then [1, 0, 0, 1, 0, 0]
         else (let invdet = 1 / det
               in [t ! 3 * invdet, - (t ! 1) * invdet, - (t ! 2) * invdet, t ! 0 * invdet,
                   (t ! 2 * t ! 5 - t ! 3 * t ! 4) * invdet,
                   (t ! 1 * t ! 4 - t ! 0 * t ! 5) * invdet]))"

definition exact_ops :: "real FloatOps" where
  "exact_ops =
     \<lparr>f_add = (+), f_mul = (*), f_div = (/), f_sqrt = sqrt, f_less = (<),
      f_zero = 0, f_one = 1, f_half = 1 / 2, f_neg_half = - (1 / 2),
      f_of_uint = (\<lambda>w. real (unat w)),
      nvgTransformInverse = exact_nvgTransformInverse\<rparr>"

definition solidPaint :: "real NVGpaint" where
  "solidPaint =
     \<lparr>paint_xform = [1, 0, 0, 1, 0, 0], paint_extent = [0, 0], paint_radius = 0,
      paint_feather = 1, paint_innerColor = Vec4 1 0 0 1, paint_outerColor = Vec4 1 0 0 1,
      paint_image = 0\<rparr>"

definition gradientPaint :: "real NVGpaint" where
  "gradientPaint = solidPaint\<lparr>paint_outerColor := Vec4 0 0 1 1\<rparr>"

definition imagePaint :: "32 word \<Rightarrow> real NVGpaint" where
  "imagePaint i = solidPaint\<lparr>paint_image := i\<rparr>"

definition noScissor :: "real NVGscissor" where
  "noScissor = \<lparr>scissor_xform = [0, 0, 0, 0, 0, 0], scissor_extent = [- 1, - 1]\<rparr>"

definition fullscreenScissor :: "real NVGscissor" where
  "fullscreenScissor = \<lparr>scissor_xform = [1, 0, 0, 1, 400, 300], scissor_extent = [400, 300]\<rparr>"

definition fillPath3 :: "real NVGpath" where
  "fillPath3 =
     \<lparr>path_fill = [NVGvertex 0 0 0 0, NVGvertex 1 0 1 0, NVGvertex 0 1 0 1], path_stroke = []\<rparr>"

definition strokePath4 :: "real NVGpath" where
  "strokePath4 =
     \<lparr>path_fill = [],
      path_stroke = [NVGvertex 0 0 0 0, NVGvertex 1 0 1 0, NVGvertex 0 1 0 1, NVGvertex 1 1 1 1]\<rparr>"

text \<open>
  A new renderer on a framebuffer, on a device that aligns uniform offsets to 256 bytes
  and rounds the memory of a buffer up to a multiple of 256 bytes.
\<close>

definition renderer0 :: "real Renderer" where
  "renderer0 = init False 256 (\<lambda>n. (n + 255) div 256 * 256)"

text \<open>A frame of four draw calls: fill, fill, stroke, fill, of one path each.\<close>

definition frame_ffsf :: "real api_call list" where
  "frame_ffsf =
     [call_start 800 600,
      call_fill solidPaint noScissor 1 [] [fillPath3],
      call_fill solidPaint noScissor 1 [] [fillPath3],
      call_stroke solidPaint noScissor 1 2 [strokePath4],
      call_fill solidPaint noScissor 1 [] [fillPath3]]"


definition frame_cancelled :: "real api_call list" where
  "frame_cancelled =
     [call_start 800 600,
      call_fill solidPaint noScissor 1 [] [fillPath3],
      call_cancel]"

definition frame_textured :: "real api_call list" where
  "frame_textured =
     [call_createTexture r8Unorm 4 4 None,
      call_start 800 600,
      call_fill (imagePaint 1) noScissor 1 [] [fillPath3],
      call_fill solidPaint noScissor 1 [] [fillPath3]]"

section \<open>Texture registry: lemmas\<close>

lemma memorySize_None: "memorySize None = 0"
  by (simp add: memorySize_def)

lemma texID_createTexture: "texID (snd (createTexture f w h d r)) = texID r + 1"
  by (simp add: createTexture_def Let_def)

lemma fst_createTexture: "fst (createTexture f w h d r) = texID r + 1"
  by (simp add: createTexture_def Let_def)

lemma textures_createTexture:
  "textures (snd (createTexture f w h d r)) =
     textures r @ [\<lparr>tex_format = f, tex_id = texID r + 1, tex_width = w, tex_height = h\<rparr>]"
  by (simp add: createTexture_def Let_def)

lemma texID_deleteTexture: "texID (snd (deleteTexture i r)) = texID r"
  by (simp add: deleteTexture_def split: option.splits)

lemma erase_first_None: "find P xs = None \<Longrightarrow> erase_first P xs = xs"
  by (induction xs) (auto split: if_splits)

lemma upt_0_Suc_map: "[0..<Suc n] = 0 # map Suc [0..<n]"
  by (simp add: map_Suc_upt upt_conv_Cons del: upt_Suc)

lemma run_tex_ids:
  "fst (run_tex cs r) = map (\<lambda>k. texID r + 1 + of_nat k) [0..<creates cs]"
proof (induction cs arbitrary: r rule: creates.induct)
  case 1
  then show ?case by simp
next
  case (2 f w h d cs)
  have "fst (run_tex (tex_create f w h d # cs) r)
        = (texID r + 1) # fst (run_tex cs (snd (createTexture f w h d r)))"
    by (simp add: split_beta Let_def fst_createTexture)
  also have "\<dots> = (texID r + 1) # map (\<lambda>k. texID r + 1 + 1 + of_nat k) [0..<creates cs]"
    by (simp add: 2 texID_createTexture)
  also have "\<dots> = map (\<lambda>k. texID r + 1 + of_nat k) [0..<Suc (creates cs)]"
    unfolding upt_0_Suc_map [of "creates cs"] by (simp add: comp_def add.assoc)
  finally show ?case by simp
next
  case (3 i cs)
  then show ?case by (simp add: texID_deleteTexture)
qed

lemma unat_counter:
  "unat (c :: 32 word) + Suc k < 2 ^ 32 \<Longrightarrow> unat (c + 1 + of_nat k) = unat c + 1 + k"
  by (simp add: unat_word_ariths unat_of_nat take_bit_nat_eq_self)

lemma find_Some_mem: "find P xs = Some t \<Longrightarrow> t \<in> set xs \<and> P t"
  by (induction xs) (auto split: if_splits)

lemma erase_first_remove1:
  "find P xs = Some t \<Longrightarrow> erase_first P xs = remove1 t xs"
proof (induction xs)
  case Nil
  then show ?case by simp
next
  case (Cons x xs)
  show ?case
  proof (cases "P x")
    case True
    with Cons.prems show ?thesis by simp
  next
    case False
    with Cons.prems have f: "find P xs = Some t" by simp
    then have "P t" by (simp add: find_Some_mem)
    with False have "t \<noteq> x" by auto
    with False f Cons.IH show ?thesis by simp
  qed
qed

lemma find_erase_first_id:
  "distinct (map f xs) \<Longrightarrow>
   find (\<lambda>t. f t = j) (erase_first (\<lambda>t. f t = i) xs) =
     (if j = i then None else find (\<lambda>t. f t = j) xs)"
proof (induction xs)
  case Nil
  then show ?case by simp
next
  case (Cons x xs)
  show ?case
  proof (cases "f x = i")
    case True
    have "f x \<notin> f ` set xs" using Cons.prems by simp
    with True have "\<forall>t \<in> set xs. f t \<noteq> i" by (metis image_eqI)
    then have "find (\<lambda>t. f t = i) xs = None"
      by (simp add: find_None_iff)
    with True show ?thesis by auto
  next
    case False
    with Cons show ?thesis by auto
  qed
qed

lemma textures_deleteTexture:
  "textures (snd (deleteTexture i r)) = erase_first (\<lambda>t. tex_id t = i) (textures r)"
  by (simp add: deleteTexture_def erase_first_None split: option.splits)

lemma texture_deleteTexture:
  "distinct (map tex_id (textures r)) \<Longrightarrow>
   texture (snd (deleteTexture i r)) j = (if j = i then None else texture r j)"
  unfolding texture_def textures_deleteTexture by (rule find_erase_first_id)

lemma deleteTexture_unknown: "texture r i = None \<Longrightarrow> deleteTexture i r = (False, r)"
  by (simp add: deleteTexture_def texture_def)

lemma deleteTexture_known: "texture r i = Some t \<Longrightarrow> fst (deleteTexture i r) = True"
  by (simp add: deleteTexture_def texture_def)

lemma registered_le_texID:
  "registry_ok r \<Longrightarrow> texture r i = Some t \<Longrightarrow> i \<noteq> 0 \<and> i \<le> texID r"
  unfolding registry_ok_def texture_def
  by (auto dest!: find_Some_mem simp: list_all_iff)

lemma above_texID_unregistered:
  "registry_ok r \<Longrightarrow> texID r < i \<Longrightarrow> texture r i = None"
  using registered_le_texID [of r i] by (cases "texture r i") auto

lemma registry_ok_init: "registry_ok (init sc al mem)"
  by (simp add: registry_ok_def init_def)

lemma word_less_succ: "w \<noteq> - 1 \<Longrightarrow> w < w + 1" for w :: "'a::len word"
  using inc_less_eq_self_iff_eq [of w] by (simp add: not_le)

lemma registry_ok_createTexture:
  assumes "registry_ok r" "texID r \<noteq> - 1"
  shows "registry_ok (snd (createTexture f w h d r))"
proof -
  have lt: "texID r < texID r + 1"
    using assms(2) by (rule word_less_succ)
  then have nz: "texID r + 1 \<noteq> 0"
    by (metis word_not_simps(1))
  have old: "\<forall>t \<in> set (textures r). tex_id t \<noteq> 0 \<and> tex_id t \<le> texID r"
    using assms(1) by (simp add: registry_ok_def list_all_iff)
  then have fresh: "texID r + 1 \<notin> tex_id ` set (textures r)"
    using lt by auto
  have "\<forall>t \<in> set (textures r). tex_id t \<le> texID r + 1"
    using old lt by (meson le_less_trans less_imp_le)
  then show ?thesis
    using assms(1) old fresh nz
    by (simp add: registry_ok_def list_all_iff textures_createTexture texID_createTexture)
qed

lemma set_erase_first: "set (erase_first P xs) \<subseteq> set xs"
  by (induction xs) auto

lemma distinct_map_erase_first: "distinct (map f xs) \<Longrightarrow> distinct (map f (erase_first P xs))"
proof (induction xs)
  case Nil
  then show ?case by simp
next
  case (Cons x xs)
  then show ?case using set_erase_first [of P xs] by auto
qed

lemma registry_ok_deleteTexture:
  assumes "registry_ok r"
  shows "registry_ok (snd (deleteTexture i r))"
  using assms set_erase_first [of "\<lambda>t. tex_id t = i" "textures r"]
  by (auto simp: registry_ok_def list_all_iff textures_deleteTexture texID_deleteTexture
        distinct_map_erase_first)

lemma snd_run_tex_append:
  "snd (run_tex (a @ b) r) = snd (run_tex b (snd (run_tex a r)))"
proof (induction a arbitrary: r)
  case Nil
  then show ?case by simp
next
  case (Cons c cs)
  then show ?case by (cases c) (simp_all add: split_beta Let_def)
qed

lemma snd_run_tex_create:
  "snd (run_tex [tex_create f w h d] r) = snd (createTexture f w h d r)"
  by (simp add: split_beta Let_def)

lemma of_nat_neq_1:
  assumes "2 \<le> m" "m \<le> 2 ^ 32"
  shows "(of_nat m :: uint) \<noteq> 1"
proof
  assume "(of_nat m :: uint) = 1"
  then have "unat (of_nat m :: uint) = 1" by simp
  then have m: "m mod 2 ^ 32 = 1" by (simp add: unat_of_nat take_bit_eq_mod)
  show False
  proof (cases "m = 2 ^ 32")
    case True
    with m show False by simp
  next
    case False
    with assms have "m < 2 ^ 32" by simp
    with m assms show False by simp
  qed
qed

lemma create_delete_step:
  assumes "texID r + 1 = of_nat m"
    "textures r = [\<lparr>tex_format = r8g8b8a8Unorm, tex_id = 1, tex_width = 4, tex_height = 4\<rparr>]"
    "2 \<le> m" "m \<le> 2 ^ 32"
  shows "texID (snd (run_tex (create_delete m) r)) = of_nat m \<and>
         textures (snd (run_tex (create_delete m) r)) = textures r"
proof -
  have n: "(of_nat m :: uint) \<noteq> 1" using assms(3,4) by (rule of_nat_neq_1)
  then have n': "(1 :: uint) \<noteq> of_nat m" by (rule not_sym)
  show ?thesis
    using n n'
    by (simp add: create_delete_def split_beta Let_def createTexture_def deleteTexture_def
          assms(1,2))
qed

lemma create_delete_run:
  assumes "texID r = 1"
    "textures r = [\<lparr>tex_format = r8g8b8a8Unorm, tex_id = 1, tex_width = 4, tex_height = 4\<rparr>]"
    "2 \<le> m" "m \<le> 2 ^ 32 + 1"
  shows "texID (snd (run_tex (concat (map create_delete [2..<m])) r)) + 1 = of_nat m \<and>
         textures (snd (run_tex (concat (map create_delete [2..<m])) r)) = textures r"
  using assms(3,4)
proof (induction m rule: nat_induct_at_least)
  case base
  then show ?case by (simp add: assms(1))
next
  case (Suc m)
  let ?r = "snd (run_tex (concat (map create_delete [2..<m])) r)"
  have IH: "texID ?r + 1 = of_nat m" "textures ?r = textures r"
    using Suc by simp_all
  have m: "m \<le> 2 ^ 32" using Suc.prems by simp
  have t: "textures ?r = [\<lparr>tex_format = r8g8b8a8Unorm, tex_id = 1, tex_width = 4, tex_height = 4\<rparr>]"
    using IH(2) assms(2) by simp
  from create_delete_step [OF IH(1) t Suc.hyps m] IH(2)
  have "texID (snd (run_tex (create_delete m) ?r)) + 1 = of_nat (Suc m) \<and>
        textures (snd (run_tex (create_delete m) ?r)) = textures r"
    by simp
  moreover have "[2..<Suc m] = [2..<m] @ [m]" using Suc.hyps by simp
  ultimately show ?case by (simp add: snd_run_tex_append del: upt_Suc)
qed

lemma creates_append: "creates (a @ b) = creates a + creates b"
  by (induction a rule: creates.induct) simp_all

lemma creates_create_delete: "creates (concat (map create_delete ks)) = length ks"
  by (induction ks) (simp_all add: creates_append create_delete_def)

lemma creates_wrap_calls: "creates wrap_calls = 2 ^ 32 + 1"
  unfolding wrap_calls_def creates_append creates_create_delete length_upt by simp

section \<open>Texture registry: properties\<close>

text \<open>
  C4, as amended. In every sequence of \<open>createTexture\<close> and \<open>deleteTexture\<close> calls
  that keeps the 32-bit counter \<open>texID\<close> from wrapping (the counter's value at the start
  plus the number of \<open>createTexture\<close> calls is below \<open>2 ^ 32\<close>), every id returned is
  strictly greater than every id returned before it and than the counter at the start, no
  id is 0 and no id is returned twice, whatever is deleted in between; from a counter of
  0 the ids are 1, 2, 3, ... in this order.
\<close>

theorem createTexture_ids_increasing:
  assumes "unat (texID r) + creates cs < 2 ^ 32"
  shows "sorted_wrt (<) (fst (run_tex cs r)) \<and>
         distinct (fst (run_tex cs r)) \<and>
         list_all (\<lambda>i. texID r < i \<and> i \<noteq> 0) (fst (run_tex cs r)) \<and>
         (texID r = 0 \<longrightarrow> fst (run_tex cs r) = map of_nat [1..<Suc (creates cs)])"
proof -
  let ?f = "\<lambda>k. texID r + 1 + of_nat k"
  have val: "unat (?f k) = unat (texID r) + 1 + k" if "k < creates cs" for k
    using that assms by (intro unat_counter) simp
  have sorted: "sorted_wrt (<) (map ?f [0..<creates cs])"
    unfolding sorted_wrt_map sorted_wrt_iff_nth_less
    by (auto simp: word_less_nat_alt val)
  have above: "texID r < ?f k \<and> ?f k \<noteq> 0" if "k < creates cs" for k
  proof -
    have "unat (texID r) < unat (?f k)" using val [OF that] by simp
    then show ?thesis by (auto simp: word_less_nat_alt)
  qed
  have "inj_on ?f (set [0..<creates cs])"
  proof (rule inj_onI)
    fix a b
    assume "a \<in> set [0..<creates cs]" "b \<in> set [0..<creates cs]" "?f a = ?f b"
    then have "unat (?f a) = unat (?f b)" "a < creates cs" "b < creates cs" by simp_all
    then show "a = b" by (simp add: val)
  qed
  then have "distinct (map ?f [0..<creates cs])"
    by (simp add: distinct_map)
  moreover have "list_all (\<lambda>i. texID r < i \<and> i \<noteq> 0) (map ?f [0..<creates cs])"
    using above by (simp add: list_all_iff)
  moreover have "map ?f [0..<creates cs] = map of_nat [1..<Suc (creates cs)]" if "texID r = 0"
    using that by (simp add: map_Suc_upt [symmetric] del: upt_Suc)
  ultimately show ?thesis using sorted by (simp add: run_tex_ids)
qed

theorem createTexture_ids_increasing_witness:
  "fst (run_tex [tex_create r8g8b8a8Unorm 4 4 None, tex_delete 1,
                 tex_create r8Unorm 8 8 None, tex_create r8g8b8a8Unorm 2 2 None] renderer0)
     = [1, 2, 3]
   \<and> sorted_wrt (<) (fst (run_tex [tex_create r8g8b8a8Unorm 4 4 None, tex_delete 1,
                 tex_create r8Unorm 8 8 None, tex_create r8g8b8a8Unorm 2 2 None] renderer0))
   \<and> distinct (fst (run_tex [tex_create r8g8b8a8Unorm 4 4 None, tex_delete 1,
                 tex_create r8Unorm 8 8 None, tex_create r8g8b8a8Unorm 2 2 None] renderer0))"
proof -
  let ?cs = "[tex_create r8g8b8a8Unorm 4 4 None, tex_delete 1,
              tex_create r8Unorm 8 8 None, tex_create r8g8b8a8Unorm 2 2 None]"
  have z: "texID renderer0 = 0" by (simp add: renderer0_def init_def)
  have hyp: "unat (texID renderer0) + creates ?cs < 2 ^ 32" by (simp add: z)
  have ids: "fst (run_tex ?cs renderer0) = [1, 2, 3]"
    by (subst run_tex_ids) (simp add: z)
  note T = createTexture_ids_increasing [OF hyp]
  show ?thesis
    by (intro conjI) (rule ids, rule T [THEN conjunct1], rule T [THEN conjunct2, THEN conjunct1])
qed

text \<open>
  C4 as stated fails: \<open>texID\<close> is an \<open>unsigned int\<close> and \<open>++texID_\<close> wraps. Of the
  \<open>2 ^ 32 + 1\<close> \<open>createTexture\<close> calls of \<open>wrap_calls\<close> on a new renderer, the
  first returns 1, the \<open>2 ^ 32\<close>-th returns 0 and the last returns 1 again.
\<close>

theorem createTexture_id_wraps:
  "length (fst (run_tex wrap_calls renderer0)) = 2 ^ 32 + 1 \<and>
   hd (fst (run_tex wrap_calls renderer0)) = 1 \<and>
   0 \<in> set (fst (run_tex wrap_calls renderer0)) \<and>
   last (fst (run_tex wrap_calls renderer0)) = 1"
proof -
  define n :: nat where "n = 2 ^ 32 + 1"
  define ids where "ids = fst (run_tex wrap_calls (renderer0 :: real Renderer))"
  have z: "texID renderer0 = 0" by (simp add: renderer0_def init_def)
  have ids: "ids = map (\<lambda>k. 1 + of_nat k) [0..<n]"
    unfolding ids_def n_def run_tex_ids creates_wrap_calls z by simp
  have len: "length ids = n" by (simp add: ids)
  have nth: "ids ! k = 1 + of_nat k" if "k < n" for k
    using that by (simp add: ids)
  have n: "0 < n" "2 ^ 32 - 1 < n" "2 ^ 32 < n" "n - 1 = 2 ^ 32" by (simp_all add: n_def)
  have ne: "ids \<noteq> []" using len n(1) by auto
  have h: "hd ids = 1" using nth [OF n(1)] ne by (simp add: hd_conv_nth)
  have "ids ! (2 ^ 32 - 1) \<in> set ids" using len n(2) by (simp only: nth_mem)
  moreover have "ids ! (2 ^ 32 - 1) = 0" using nth [OF n(2)] by simp
  ultimately have m: "0 \<in> set ids" by simp
  have "last ids = ids ! (n - 1)" using ne by (simp add: last_conv_nth len)
  also have "\<dots> = ids ! (2 ^ 32)" by (simp only: n(4))
  also have "\<dots> = 1 + of_nat (2 ^ 32)" by (rule nth [OF n(3)])
  finally have l: "last ids = 1" by simp
  show ?thesis using len h m l unfolding ids_def n_def by simp
qed

text \<open>
  C5, as amended. In a renderer whose registry is well formed (\<open>registry_ok\<close>: what \<open>init\<close>
  establishes and \<open>createTexture\<close>, short of a wrap of the counter, and \<open>deleteTexture\<close>
  keep), \<open>deleteTexture i\<close> returns false and changes nothing when no texture has the id
  \<open>i\<close>. When the texture \<open>t\<close> has it, the call returns true and removes exactly \<open>t\<close>:
  afterwards the lookup of \<open>i\<close> finds nothing and every other lookup is as before; a
  second \<open>deleteTexture i\<close> returns false and changes nothing; and the next
  \<open>createTexture\<close> returns the counter plus one, which is not \<open>i\<close>, not 0 and not the
  id of any registered texture.
\<close>

theorem deleteTexture_spec:
  assumes "registry_ok r"
  shows "(texture r i = None \<longrightarrow> deleteTexture i r = (False, r)) \<and>
         (\<forall>t. texture r i = Some t \<longrightarrow>
            fst (deleteTexture i r) = True \<and>
            tex_id t = i \<and>
            textures (snd (deleteTexture i r)) = remove1 t (textures r) \<and>
            (\<forall>j. texture (snd (deleteTexture i r)) j = (if j = i then None else texture r j)) \<and>
            deleteTexture i (snd (deleteTexture i r)) = (False, snd (deleteTexture i r)) \<and>
            (texID r \<noteq> - 1 \<longrightarrow>
               fst (createTexture f w h d (snd (deleteTexture i r))) = texID r + 1 \<and>
               texID r + 1 \<noteq> i \<and> texID r + 1 \<noteq> 0 \<and> texture r (texID r + 1) = None))"
proof (intro conjI allI impI)
  assume "texture r i = None"
  then show "deleteTexture i r = (False, r)" by (rule deleteTexture_unknown)
next
  fix t
  assume t: "texture r i = Some t"
  have d: "distinct (map tex_id (textures r))"
    using assms by (simp add: registry_ok_def)
  show "fst (deleteTexture i r) = True" using t by (rule deleteTexture_known)
  show "tex_id t = i" using t find_Some_mem [of "\<lambda>tex. tex_id tex = i" "textures r" t] by (simp add: texture_def)
  show "textures (snd (deleteTexture i r)) = remove1 t (textures r)"
    using t by (simp add: textures_deleteTexture texture_def erase_first_remove1)
  show lookup: "texture (snd (deleteTexture i r)) j = (if j = i then None else texture r j)" for j
    using d by (rule texture_deleteTexture)
  show "deleteTexture i (snd (deleteTexture i r)) = (False, snd (deleteTexture i r))"
    by (rule deleteTexture_unknown) (simp add: lookup)
  assume m: "texID r \<noteq> - 1"
  show "fst (createTexture f w h d (snd (deleteTexture i r))) = texID r + 1"
    by (simp add: fst_createTexture texID_deleteTexture)
  have lt: "texID r < texID r + 1" using m by (rule word_less_succ)
  have "i \<le> texID r" using registered_le_texID [OF assms t] by simp
  with lt show "texID r + 1 \<noteq> i" by auto
  show "texID r + 1 \<noteq> 0" using lt by (metis word_not_simps(1))
  show "texture r (texID r + 1) = None" using assms lt by (rule above_texID_unregistered)
qed

theorem deleteTexture_spec_witness:
  "registry_ok (snd (createTexture r8g8b8a8Unorm 4 4 None renderer0)) \<and>
   fst (createTexture r8g8b8a8Unorm 4 4 None renderer0) = 1 \<and>
   fst (deleteTexture 1 (snd (createTexture r8g8b8a8Unorm 4 4 None renderer0))) = True \<and>
   fst (deleteTexture 1 (snd (deleteTexture 1 (snd (createTexture r8g8b8a8Unorm 4 4 None renderer0))))) = False \<and>
   fst (createTexture r8g8b8a8Unorm 4 4 None
          (snd (deleteTexture 1 (snd (createTexture r8g8b8a8Unorm 4 4 None renderer0))))) = 2"
proof -
  let ?r1 = "snd (createTexture r8g8b8a8Unorm 4 4 None renderer0)"
  have ok: "registry_ok ?r1"
  proof (rule registry_ok_createTexture)
    show "registry_ok renderer0" by (simp add: renderer0_def registry_ok_init)
    show "texID renderer0 \<noteq> - 1" by (simp add: renderer0_def init_def)
  qed
  have t: "texture ?r1 1 =
     Some \<lparr>tex_format = r8g8b8a8Unorm, tex_id = 1, tex_width = 4, tex_height = 4\<rparr>"
    by (simp add: texture_def textures_createTexture renderer0_def init_def)
  have id: "texID ?r1 = 1" "texID ?r1 \<noteq> - 1"
    by (simp_all add: texID_createTexture renderer0_def init_def)
  have first: "fst (createTexture r8g8b8a8Unorm 4 4 None renderer0) = 1"
    by (simp add: fst_createTexture renderer0_def init_def)
  show ?thesis
    using deleteTexture_spec [OF ok, of 1 r8g8b8a8Unorm 4 4 None] t id ok first
    by simp
qed

text \<open>
  C5 as stated fails once the counter has wrapped: after \<open>wrap_calls\<close> on a new
  renderer two textures have the id 1, and \<open>deleteTexture(1)\<close> returns true twice.
\<close>

theorem deleteTexture_twice_true_after_wrap:
  "fst (deleteTexture 1 (snd (run_tex wrap_calls renderer0))) = True \<and>
   fst (deleteTexture 1 (snd (deleteTexture 1 (snd (run_tex wrap_calls renderer0))))) = True"
proof -
  let ?t = "\<lparr>tex_format = r8g8b8a8Unorm, tex_id = 1, tex_width = 4, tex_height = 4\<rparr>"
  define r1 :: "real Renderer" where "r1 = snd (createTexture r8g8b8a8Unorm 4 4 None renderer0)"
  define r2 where "r2 = snd (run_tex (concat (map create_delete [2..<2 ^ 32 + 1])) r1)"
  define r3 where "r3 = snd (createTexture r8g8b8a8Unorm 4 4 None r2)"
  have r1: "texID r1 = 1" "textures r1 = [?t]"
    by (simp_all add: r1_def createTexture_def Let_def renderer0_def init_def)
  have b: "(2::nat) \<le> 2 ^ 32 + 1" "(2::nat) ^ 32 + 1 \<le> 2 ^ 32 + 1" by simp_all
  have "texID r2 + 1 = of_nat (2 ^ 32 + 1) \<and> textures r2 = textures r1"
    unfolding r2_def by (rule create_delete_run [OF r1 b])
  then have r2: "texID r2 + 1 = 1" "textures r2 = [?t]"
    by (simp_all add: r1(2))
  have r3: "textures r3 = [?t, ?t]"
    by (simp add: r3_def createTexture_def Let_def r2)
  have w: "snd (run_tex wrap_calls renderer0) = r3"
    unfolding wrap_calls_def snd_run_tex_append snd_run_tex_create r3_def r2_def r1_def ..
  show ?thesis
    unfolding w by (simp add: deleteTexture_def r3)
qed

text \<open>
  C8 fails on the code: \<open>getTextureSize\<close> stores the width of the texture into both
  outputs (\<open>*h = tex->width()\<close>). For the texture 1 of width 4 and height 2 it reports
  \<open>(4, 4)\<close>.
\<close>

theorem getTextureSize_reports_width_twice:
  "getTextureSize (snd (createTexture r8g8b8a8Unorm 4 2 None renderer0)) 1 (0, 0) = (1, (4, 4))
   \<and> tex_height (the (texture (snd (createTexture r8g8b8a8Unorm 4 2 None renderer0)) 1)) = 2"
  by (simp add: getTextureSize_def texture_def textures_createTexture renderer0_def init_def)

section \<open>Paint encoder: lemmas\<close>

lemma parsePaint_Inl_iff:
  "parsePaint ops p s f w r = Inl e \<longleftrightarrow> paint_image p \<noteq> 0 \<and> texture r (paint_image p) = None"
  by (cases e) (auto simp: parsePaint_def parsePaint_type_def Let_def split_beta
        split: if_splits option.splits sum.splits)

lemma parsePaint_Inr_iff:
  "(\<exists>r'. parsePaint ops p s f w r = Inr r') \<longleftrightarrow>
     paint_image p = 0 \<or> texture r (paint_image p) \<noteq> None"
  by (auto simp: parsePaint_def parsePaint_type_def Let_def split_beta
        split: if_splits option.splits sum.splits)

lemma parsePaint_frame:
  assumes "parsePaint ops p s f w r = Inr r'"
  shows "textures r' = textures r" "texID r' = texID r" "vertices r' = vertices r"
    "uniformBuffer r' = uniformBuffer r" "vertexBuffer r' = vertexBuffer r"
    "descriptorPool r' = descriptorPool r" "descriptorPoolSize r' = descriptorPoolSize r"
    "dummyTexture r' = dummyTexture r" "edgeAA r' = edgeAA r" "swapchain r' = swapchain r"
    "width r' = width r" "height r' = height r"
    "minUniformBufferOffsetAlignment r' = minUniformBufferOffsetAlignment r"
    "bufferMemory r' = bufferMemory r"
  using assms
  by (auto simp: parsePaint_def Let_def split_beta split: sum.splits)

lemma parsePaint_entry:
  assumes "parsePaint ops p s f w r = Inr r'"
  shows "\<exists>d. drawDatas r' = drawDatas r @ [d] \<and>
           u_type (uniformData d) =
             (if paint_image p \<noteq> 0 then 3
              else if paint_innerColor p = paint_outerColor p then 1 else 2) \<and>
           dtexture d = paint_image p \<and>
           paths d = [] \<and> triangleCount d = 0 \<and> triangleOffset d = 0 \<and> descriptorSet d = None \<and>
           innerColor (uniformData d) = paint_innerColor p \<and>
           outerColor (uniformData d) = paint_outerColor p \<and>
           viewSize (uniformData d) = Vec2 (f_of_uint ops (width r)) (f_of_uint ops (height r)) \<and>
           scissorMat (uniformData d) = fst (parsePaint_scissorMat ops p s f w) \<and>
           paintMat (uniformData d) = fst (parsePaint_paintMat ops p f w) \<and>
           trace r' = trace r @ snd (parsePaint_scissorMat ops p s f w)
                        @ snd (parsePaint_paintMat ops p f w)"
  using assms
  by (auto simp: parsePaint_def parsePaint_type_def Let_def split_beta emptyDrawData_def
        typeTexture_def typeColor_def typeGradient_def
        split: if_splits option.splits sum.splits)

lemma scissorMat_value:
  "fst (parsePaint_scissorMat ops p s f w) =
     (if f_less ops (scissor_extent s ! 0) (f_neg_half ops)
         \<or> f_less ops (scissor_extent s ! 1) (f_neg_half ops) then
        [[f_zero ops, f_zero ops, f_zero ops, paint_radius p],
         [f_zero ops, f_zero ops, f_zero ops, paint_feather p],
         [f_zero ops, f_zero ops, f_zero ops, w],
         [f_one ops, f_one ops, f_one ops, f_one ops]]
      else
        [[nvgTransformInverse ops (scissor_xform s) ! 0,
          nvgTransformInverse ops (scissor_xform s) ! 1, f_zero ops, paint_radius p],
         [nvgTransformInverse ops (scissor_xform s) ! 2,
          nvgTransformInverse ops (scissor_xform s) ! 3, f_zero ops, paint_feather p],
         [nvgTransformInverse ops (scissor_xform s) ! 4,
          nvgTransformInverse ops (scissor_xform s) ! 5, f_one ops, w],
         [scissor_extent s ! 0, scissor_extent s ! 1,
          f_div ops (f_sqrt ops (f_add ops (f_mul ops (scissor_xform s ! 0) (scissor_xform s ! 0))
                                          (f_mul ops (scissor_xform s ! 2) (scissor_xform s ! 2)))) f,
          f_div ops (f_sqrt ops (f_add ops (f_mul ops (scissor_xform s ! 1) (scissor_xform s ! 1))
                                          (f_mul ops (scissor_xform s ! 3) (scissor_xform s ! 3)))) f]])"
  by (simp add: parsePaint_scissorMat_def zeroMat_def mat_set_def Let_def eval_nat_numeral)

lemma scissorMat_calls:
  "snd (parsePaint_scissorMat ops p s f w) =
     (if f_less ops (scissor_extent s ! 0) (f_neg_half ops)
         \<or> f_less ops (scissor_extent s ! 1) (f_neg_half ops) then []
      else [call_nvgTransformInverse (scissor_xform s)])"
  by (simp add: parsePaint_scissorMat_def Let_def)

lemma paintMat_value:
  "fst (parsePaint_paintMat ops p f w) =
        [[nvgTransformInverse ops (paint_xform p) ! 0,
          nvgTransformInverse ops (paint_xform p) ! 1, f_zero ops,
          f_div ops (f_add ops (f_mul ops w (f_half ops)) (f_mul ops f (f_half ops))) f],
         [nvgTransformInverse ops (paint_xform p) ! 2,
          nvgTransformInverse ops (paint_xform p) ! 3, f_zero ops, f_zero ops],
         [nvgTransformInverse ops (paint_xform p) ! 4,
          nvgTransformInverse ops (paint_xform p) ! 5, f_one ops, f_zero ops],
         [paint_extent p ! 0, paint_extent p ! 1, f_zero ops, f_zero ops]]"
  by (simp add: parsePaint_paintMat_def zeroMat_def mat_set_def Let_def eval_nat_numeral)

lemma paintMat_calls:
  "snd (parsePaint_paintMat ops p f w) = [call_nvgTransformInverse (paint_xform p)]"
  by (simp add: parsePaint_paintMat_def Let_def)


lemma fill_Inr:
  "fill ops p s f b ps r = Inr r' \<longleftrightarrow>
     (\<exists>r1. parsePaint ops p s f f r = Inr r1 \<and>
        r' = r1\<lparr>drawDatas := set_back (drawDatas r1)
                  ((last (drawDatas r1))\<lparr>paths :=
                     fst (fold (fill_path (edgeAA r1)) ps (paths (last (drawDatas r1)), vertices r1))\<rparr>),
                vertices := snd (fold (fill_path (edgeAA r1)) ps
                                  (paths (last (drawDatas r1)), vertices r1))\<rparr>)"
  by (auto simp: fill_def Let_def split_beta split: sum.splits)

lemma stroke_Inr:
  "stroke ops p s f w ps r = Inr r' \<longleftrightarrow>
     (\<exists>r1. parsePaint ops p s f w r = Inr r1 \<and>
        r' = r1\<lparr>drawDatas := set_back (drawDatas r1)
                  ((last (drawDatas r1))\<lparr>paths :=
                     fst (fold stroke_path ps (paths (last (drawDatas r1)), vertices r1))\<rparr>),
                vertices := snd (fold stroke_path ps
                                  (paths (last (drawDatas r1)), vertices r1))\<rparr>)"
  by (auto simp: stroke_def Let_def split_beta split: sum.splits)

lemma triangles_Inr:
  "triangles ops p s vs r = Inr r' \<longleftrightarrow>
     (\<exists>r1. parsePaint ops p s (f_one ops) (f_one ops) r = Inr r1 \<and>
        r' = r1\<lparr>drawDatas := set_back (drawDatas r1)
                  ((last (drawDatas r1))\<lparr>triangleOffset := length (vertices r1),
                                           triangleCount := length vs\<rparr>),
                vertices := vertices r1 @ vs\<rparr>)"
  by (auto simp: triangles_def Let_def split_beta split: sum.splits)

lemma fill_Inl_iff:
  "fill ops p s f b ps r = Inl e \<longleftrightarrow> paint_image p \<noteq> 0 \<and> texture r (paint_image p) = None"
  using parsePaint_Inl_iff [of ops p s f f r e]
  by (auto simp: fill_def Let_def split_beta split: sum.splits)

lemma stroke_Inl_iff:
  "stroke ops p s f w ps r = Inl e \<longleftrightarrow> paint_image p \<noteq> 0 \<and> texture r (paint_image p) = None"
  using parsePaint_Inl_iff [of ops p s f w r e]
  by (auto simp: stroke_def Let_def split_beta split: sum.splits)

lemma triangles_Inl_iff:
  "triangles ops p s vs r = Inl e \<longleftrightarrow> paint_image p \<noteq> 0 \<and> texture r (paint_image p) = None"
  using parsePaint_Inl_iff [of ops p s "f_one ops" "f_one ops" r e]
  by (auto simp: triangles_def Let_def split_beta split: sum.splits)

lemma last_set_back: "last (set_back xs x) = x"
  by (simp add: set_back_def)

lemma length_set_back: "xs \<noteq> [] \<Longrightarrow> length (set_back xs x) = length xs"
  by (simp add: set_back_def)

lemma set_back_snoc: "set_back (xs @ [y]) x = xs @ [x]"
  by (simp add: set_back_def)

lemma parsePaint_type_tag:
  assumes "parsePaint ops p s f w r = Inr r'"
  shows "length (drawDatas r') = Suc (length (drawDatas r)) \<and>
         u_type (uniformData (last (drawDatas r'))) =
           (if paint_image p \<noteq> 0 then 3
            else if paint_innerColor p = paint_outerColor p then 1 else 2)"
  using parsePaint_entry [OF assms] by auto

section \<open>Paint encoder: properties\<close>

text \<open>
  C1. Whatever \<open>parsePaint\<close>, \<open>fill\<close>, \<open>stroke\<close> or \<open>triangles\<close> returns for a
  paint: a renderer with one more entry, whose paint-kind tag is 3 (textured) when the
  image id of the paint is not 0, whatever the colors; else 1 (color) when the inner color
  equals the outer color as an object; else 2 (gradient). The call returns no renderer
  only if the image id is not 0 and names no registered texture, where the source
  dereferences a null pointer.
\<close>

theorem paint_classification:
  assumes "res \<in> {parsePaint ops p s f w r, fill ops p s f b ps r,
                   stroke ops p s f w ps r, triangles ops p s vs r}"
  shows "case res of
           Inl e \<Rightarrow> paint_image p \<noteq> 0 \<and> texture r (paint_image p) = None
         | Inr r' \<Rightarrow>
             length (drawDatas r') = Suc (length (drawDatas r)) \<and>
             u_type (uniformData (last (drawDatas r'))) =
               (if paint_image p \<noteq> 0 then 3
                else if paint_innerColor p = paint_outerColor p then 1 else 2)"
proof (cases res)
  case (Inl e)
  then show ?thesis
    using assms parsePaint_Inl_iff [of ops p s f w r e] fill_Inl_iff [of ops p s f b ps r e]
      stroke_Inl_iff [of ops p s f w ps r e] triangles_Inl_iff [of ops p s vs r e]
    by auto
next
  case (Inr r')
  have "length (drawDatas r') = Suc (length (drawDatas r)) \<and>
        u_type (uniformData (last (drawDatas r'))) =
          (if paint_image p \<noteq> 0 then 3
           else if paint_innerColor p = paint_outerColor p then 1 else 2)"
  proof -
    consider "parsePaint ops p s f w r = Inr r'" | "fill ops p s f b ps r = Inr r'"
      | "stroke ops p s f w ps r = Inr r'" | "triangles ops p s vs r = Inr r'"
      using assms Inr by auto
    then show ?thesis
    proof cases
      case 1
      then show ?thesis by (rule parsePaint_type_tag)
    next
      case 2
      then obtain r1 where r1: "parsePaint ops p s f f r = Inr r1"
        and r': "r' = r1\<lparr>drawDatas := set_back (drawDatas r1)
                  ((last (drawDatas r1))\<lparr>paths :=
                     fst (fold (fill_path (edgeAA r1)) ps (paths (last (drawDatas r1)), vertices r1))\<rparr>),
                vertices := snd (fold (fill_path (edgeAA r1)) ps
                                  (paths (last (drawDatas r1)), vertices r1))\<rparr>"
        unfolding fill_Inr by blast
      from parsePaint_type_tag [OF r1] show ?thesis
        by (simp add: r' last_set_back set_back_def)
    next
      case 3
      then obtain r1 where r1: "parsePaint ops p s f w r = Inr r1"
        and r': "r' = r1\<lparr>drawDatas := set_back (drawDatas r1)
                  ((last (drawDatas r1))\<lparr>paths :=
                     fst (fold stroke_path ps (paths (last (drawDatas r1)), vertices r1))\<rparr>),
                vertices := snd (fold stroke_path ps
                                  (paths (last (drawDatas r1)), vertices r1))\<rparr>"
        unfolding stroke_Inr by blast
      from parsePaint_type_tag [OF r1] show ?thesis
        by (simp add: r' last_set_back set_back_def)
    next
      case 4
      then obtain r1 where r1: "parsePaint ops p s (f_one ops) (f_one ops) r = Inr r1"
        and r': "r' = r1\<lparr>drawDatas := set_back (drawDatas r1)
                  ((last (drawDatas r1))\<lparr>triangleOffset := length (vertices r1),
                                           triangleCount := length vs\<rparr>),
                vertices := vertices r1 @ vs\<rparr>"
        unfolding triangles_Inr by blast
      from parsePaint_type_tag [OF r1] show ?thesis
        by (simp add: r' last_set_back set_back_def)
    qed
  qed
  with Inr show ?thesis by simp
qed

theorem paint_classification_witness:
  "(case fill exact_ops solidPaint noScissor 1 [] [fillPath3] (start 800 600 renderer0) of
      Inl e \<Rightarrow> False
    | Inr r' \<Rightarrow> u_type (uniformData (last (drawDatas r'))) = 1) \<and>
   (case stroke exact_ops gradientPaint noScissor 1 2 [strokePath4] (start 800 600 renderer0) of
      Inl e \<Rightarrow> False
    | Inr r' \<Rightarrow> u_type (uniformData (last (drawDatas r'))) = 2) \<and>
   (case triangles exact_ops (imagePaint 1) noScissor []
           (start 800 600 (snd (createTexture r8Unorm 4 4 None renderer0))) of
      Inl e \<Rightarrow> False
    | Inr r' \<Rightarrow> u_type (uniformData (last (drawDatas r'))) = 3)"
proof -
  have t: "texture (start 800 600 (snd (createTexture r8Unorm 4 4 None renderer0))) 1 \<noteq> None"
    by (simp add: texture_def start_def textures_createTexture renderer0_def init_def)
  have 1: "paint_image solidPaint = 0" "paint_innerColor solidPaint = paint_outerColor solidPaint"
    by (simp_all add: solidPaint_def)
  have 2: "paint_image gradientPaint = 0"
    "paint_innerColor gradientPaint \<noteq> paint_outerColor gradientPaint"
    by (simp_all add: gradientPaint_def solidPaint_def)
  have 3: "paint_image (imagePaint 1) = 1"
    "paint_innerColor (imagePaint 1) = paint_outerColor (imagePaint 1)"
    by (simp_all add: imagePaint_def solidPaint_def)
  show ?thesis
    using
      paint_classification [where res = "fill exact_ops solidPaint noScissor 1 [] [fillPath3]
          (start 800 600 renderer0)" and ops = exact_ops and p = solidPaint and s = noScissor
          and f = 1 and b = "[]" and ps = "[fillPath3]" and r = "start 800 600 renderer0"]
      paint_classification [where res = "stroke exact_ops gradientPaint noScissor 1 2 [strokePath4]
          (start 800 600 renderer0)" and ops = exact_ops and p = gradientPaint and s = noScissor
          and f = 1 and w = 2 and ps = "[strokePath4]" and r = "start 800 600 renderer0"]
      paint_classification [where res = "triangles exact_ops (imagePaint 1) noScissor []
          (start 800 600 (snd (createTexture r8Unorm 4 4 None renderer0)))" and ops = exact_ops
          and p = "imagePaint 1" and s = noScissor and vs = "[]"
          and r = "start 800 600 (snd (createTexture r8Unorm 4 4 None renderer0))"]
      t
    by (simp add: 1 2 3 split: sum.splits)
qed

text \<open>
  C2. For a scissor whose extent has a coordinate below -0.5, the scissor matrix
  \<open>parsePaint\<close> produces has the fourth row \<open>(1, 1, 1, 1)\<close> (the rest is 0 but the
  radius, the feather and the stroke width in the fourth column), and the only call of
  \<open>nvgTransformInverse\<close> is the one on the paint transform. Otherwise the inverse of
  the scissor transform fills the first two columns of the first three rows, cell (2,2)
  is 1, and the fourth row is the extent and the two scale factors
  \<open>sqrt(xform[0]^2 + xform[2]^2) / fringe\<close> and \<open>sqrt(xform[1]^2 + xform[3]^2) / fringe\<close>.
\<close>

theorem scissor_matrix:
  assumes "parsePaint ops p s f w r = Inr r'"
  shows "(f_less ops (scissor_extent s ! 0) (f_neg_half ops)
            \<or> f_less ops (scissor_extent s ! 1) (f_neg_half ops) \<longrightarrow>
          scissorMat (uniformData (last (drawDatas r'))) ! 3
            = [f_one ops, f_one ops, f_one ops, f_one ops] \<and>
          scissorMat (uniformData (last (drawDatas r'))) =
            [[f_zero ops, f_zero ops, f_zero ops, paint_radius p],
             [f_zero ops, f_zero ops, f_zero ops, paint_feather p],
             [f_zero ops, f_zero ops, f_zero ops, w],
             [f_one ops, f_one ops, f_one ops, f_one ops]] \<and>
          trace r' = trace r @ [call_nvgTransformInverse (paint_xform p)]) \<and>
         (\<not> (f_less ops (scissor_extent s ! 0) (f_neg_half ops)
               \<or> f_less ops (scissor_extent s ! 1) (f_neg_half ops)) \<longrightarrow>
          scissorMat (uniformData (last (drawDatas r'))) =
            [[nvgTransformInverse ops (scissor_xform s) ! 0,
              nvgTransformInverse ops (scissor_xform s) ! 1, f_zero ops, paint_radius p],
             [nvgTransformInverse ops (scissor_xform s) ! 2,
              nvgTransformInverse ops (scissor_xform s) ! 3, f_zero ops, paint_feather p],
             [nvgTransformInverse ops (scissor_xform s) ! 4,
              nvgTransformInverse ops (scissor_xform s) ! 5, f_one ops, w],
             [scissor_extent s ! 0, scissor_extent s ! 1,
              f_div ops
                (f_sqrt ops (f_add ops (f_mul ops (scissor_xform s ! 0) (scissor_xform s ! 0))
                                       (f_mul ops (scissor_xform s ! 2) (scissor_xform s ! 2)))) f,
              f_div ops
                (f_sqrt ops (f_add ops (f_mul ops (scissor_xform s ! 1) (scissor_xform s ! 1))
                                       (f_mul ops (scissor_xform s ! 3) (scissor_xform s ! 3)))) f]] \<and>
          trace r' = trace r @ [call_nvgTransformInverse (scissor_xform s),
                                call_nvgTransformInverse (paint_xform p)])"
proof -
  from parsePaint_entry [OF assms] obtain d where d: "drawDatas r' = drawDatas r @ [d]"
    and sm: "scissorMat (uniformData d) = fst (parsePaint_scissorMat ops p s f w)"
    and tr: "trace r' = trace r @ snd (parsePaint_scissorMat ops p s f w)
                        @ snd (parsePaint_paintMat ops p f w)"
    by blast
  show ?thesis
    by (simp add: d sm tr scissorMat_value scissorMat_calls paintMat_calls)
qed

theorem scissor_matrix_witness:
  "(case parsePaint exact_ops solidPaint noScissor 1 1 (start 800 600 renderer0) of
      Inl e \<Rightarrow> False
    | Inr r' \<Rightarrow>
        scissorMat (uniformData (last (drawDatas r'))) ! 3 = [1, 1, 1, 1] \<and>
        trace r' = [call_nvgTransformInverse [1, 0, 0, 1, 0, 0]]) \<and>
   (case parsePaint exact_ops solidPaint fullscreenScissor 1 1 (start 800 600 renderer0) of
      Inl e \<Rightarrow> False
    | Inr r' \<Rightarrow>
        scissorMat (uniformData (last (drawDatas r'))) =
          [[1, 0, 0, 0], [0, 1, 0, 1], [- 400, - 300, 1, 1], [400, 300, 1, 1]] \<and>
        trace r' = [call_nvgTransformInverse [1, 0, 0, 1, 400, 300],
                    call_nvgTransformInverse [1, 0, 0, 1, 0, 0]])"
proof -
  have tr: "trace (start 800 600 renderer0) = []"
    by (simp add: start_def renderer0_def init_def)
  have i: "paint_image solidPaint = 0" by (simp add: solidPaint_def)
  obtain r1 where r1: "parsePaint exact_ops solidPaint noScissor 1 1 (start 800 600 renderer0) = Inr r1"
    using parsePaint_Inr_iff [of exact_ops solidPaint noScissor 1 1 "start 800 600 renderer0"] i
    by auto
  obtain r2 where r2:
    "parsePaint exact_ops solidPaint fullscreenScissor 1 1 (start 800 600 renderer0) = Inr r2"
    using parsePaint_Inr_iff [of exact_ops solidPaint fullscreenScissor 1 1 "start 800 600 renderer0"] i
    by auto
  have a: "scissorMat (uniformData (last (drawDatas r1))) ! 3 = [1, 1, 1, 1] \<and>
           trace r1 = [call_nvgTransformInverse [1, 0, 0, 1, 0, 0]]"
    using scissor_matrix [OF r1]
    by (simp add: tr exact_ops_def noScissor_def solidPaint_def)
  have b: "scissorMat (uniformData (last (drawDatas r2))) =
             [[1, 0, 0, 0], [0, 1, 0, 1], [- 400, - 300, 1, 1], [400, 300, 1, 1]] \<and>
           trace r2 = [call_nvgTransformInverse [1, 0, 0, 1, 400, 300],
                       call_nvgTransformInverse [1, 0, 0, 1, 0, 0]]"
    using scissor_matrix [OF r2]
    by (simp add: tr exact_ops_def fullscreenScissor_def solidPaint_def
          exact_nvgTransformInverse_def Let_def)
  show ?thesis by (simp add: r1 r2 a b)
qed

text \<open>
  C9, as amended. The paint matrix \<open>parsePaint\<close> produces: the inverse of the paint
  transform fills the first two columns of the first three rows, cell (2,2) is 1, the
  fourth row is the paint extent followed by two zeros, and the stroke multiplier
  \<open>(strokeWidth * 0.5 + fringe * 0.5) / fringe\<close> is cell (0,3): the fourth cell of the
  first row.
\<close>

theorem paint_matrix:
  assumes "parsePaint ops p s f w r = Inr r'"
  shows "paintMat (uniformData (last (drawDatas r'))) =
           [[nvgTransformInverse ops (paint_xform p) ! 0,
             nvgTransformInverse ops (paint_xform p) ! 1, f_zero ops,
             f_div ops (f_add ops (f_mul ops w (f_half ops)) (f_mul ops f (f_half ops))) f],
            [nvgTransformInverse ops (paint_xform p) ! 2,
             nvgTransformInverse ops (paint_xform p) ! 3, f_zero ops, f_zero ops],
            [nvgTransformInverse ops (paint_xform p) ! 4,
             nvgTransformInverse ops (paint_xform p) ! 5, f_one ops, f_zero ops],
            [paint_extent p ! 0, paint_extent p ! 1, f_zero ops, f_zero ops]]"
proof -
  from parsePaint_entry [OF assms] obtain d where d: "drawDatas r' = drawDatas r @ [d]"
    and pm: "paintMat (uniformData d) = fst (parsePaint_paintMat ops p f w)"
    by blast
  show ?thesis by (simp add: d pm paintMat_value)
qed

theorem paint_matrix_witness:
  "case parsePaint exact_ops solidPaint noScissor 1 2 (start 800 600 renderer0) of
     Inl e \<Rightarrow> False
   | Inr r' \<Rightarrow>
       paintMat (uniformData (last (drawDatas r'))) =
         [[1, 0, 0, 3 / 2], [0, 1, 0, 0], [0, 0, 1, 0], [0, 0, 0, 0]]"
proof -
  have i: "paint_image solidPaint = 0" by (simp add: solidPaint_def)
  obtain r1 where r1: "parsePaint exact_ops solidPaint noScissor 1 2 (start 800 600 renderer0) = Inr r1"
    using parsePaint_Inr_iff [of exact_ops solidPaint noScissor 1 2 "start 800 600 renderer0"] i
    by auto
  have "paintMat (uniformData (last (drawDatas r1))) =
          [[1, 0, 0, 3 / 2], [0, 1, 0, 0], [0, 0, 1, 0], [0, 0, 0, 0]]"
    using paint_matrix [OF r1]
    by (simp add: exact_ops_def solidPaint_def exact_nvgTransformInverse_def Let_def)
  then show ?thesis by (simp add: r1)
qed

text \<open>
  C9 as stated fails: the stroke multiplier is not in the fourth row. For a stroke width
  of 2 and a fringe of 1 it is 1.5, in cell (0,3), and the fourth row is all zero for a
  paint of extent \<open>(0, 0)\<close>.
\<close>

theorem stroke_multiplier_not_in_fourth_row:
  "case parsePaint exact_ops solidPaint noScissor 1 2 (start 800 600 renderer0) of
     Inl e \<Rightarrow> False
   | Inr r' \<Rightarrow>
       paintMat (uniformData (last (drawDatas r'))) ! 3 = [0, 0, 0, 0] \<and>
       paintMat (uniformData (last (drawDatas r'))) ! 0 ! 3 = (2 * (1 / 2) + 1 * (1 / 2)) / 1 \<and>
       (2 * (1 / 2) + 1 * (1 / 2)) / 1 \<notin> set (paintMat (uniformData (last (drawDatas r'))) ! 3)"
proof -
  have i: "paint_image solidPaint = 0" by (simp add: solidPaint_def)
  obtain r1 where r1: "parsePaint exact_ops solidPaint noScissor 1 2 (start 800 600 renderer0) = Inr r1"
    using parsePaint_Inr_iff [of exact_ops solidPaint noScissor 1 2 "start 800 600 renderer0"] i
    by auto
  from parsePaint_entry [OF r1] obtain d where d: "drawDatas r1 = drawDatas (start 800 600 renderer0) @ [d]"
    and pm: "paintMat (uniformData d) = fst (parsePaint_paintMat exact_ops solidPaint 1 2)"
    by blast
  have "paintMat (uniformData (last (drawDatas r1))) =
          [[1, 0, 0, 3 / 2], [0, 1, 0, 0], [0, 0, 1, 0], [0, 0, 0, 0]]"
    by (simp add: d pm paintMat_value exact_ops_def solidPaint_def
          exact_nvgTransformInverse_def Let_def)
  then show ?thesis by (simp add: r1)
qed

section \<open>Command emitter: lemmas\<close>

lemma pipeline_binds_append:
  "pipeline_binds (xs @ ys) = pipeline_binds xs @ pipeline_binds ys"
  by (induction xs rule: pipeline_binds.induct) simp_all

lemma remdups_adj_snoc:
  "remdups_adj (xs @ [x]) =
     (if xs \<noteq> [] \<and> last xs = x then remdups_adj xs else remdups_adj xs @ [x])"
  by (induction xs rule: remdups_adj.induct) auto

lemma bound_after_code:
  "bound_after ps = pipeline_code q \<longleftrightarrow> ps \<noteq> [] \<and> last ps = q"
  by (cases q; cases "last ps") (auto simp: bound_after_def)

lemma bound_after_snoc: "bound_after (ps @ [q]) = pipeline_code q"
  by (simp add: bound_after_def)

lemma draw_step:
  assumes "b = bound_after req" "pipeline_binds cmds = remdups_adj req"
  shows "pipeline_binds ((if b \<noteq> pipeline_code q then cmds @ [cmdBindPipeline q] else cmds) @ [cmdDraw n i o1 o2])
           = remdups_adj (req @ [q])"
  using assms bound_after_code [of req q]
  by (auto simp: pipeline_binds_append remdups_adj_snoc)

lemma record_path_inv:
  assumes "fst st = bound_after req" "pipeline_binds (snd st) = remdups_adj req"
  shows "fst (record_path p st) = bound_after (req @ path_pipelines p) \<and>
         pipeline_binds (snd (record_path p st)) = remdups_adj (req @ path_pipelines p)"
proof -
  obtain b cmds where st: "st = (b, cmds)" by (cases st)
  have b: "b = bound_after req" and c: "pipeline_binds cmds = remdups_adj req"
    using assms st by simp_all
  have f: "pipeline_code fanPipeline = 1" and s: "pipeline_code stripPipeline = 2" by simp_all
  show ?thesis
  proof (cases "fillCount p > 0")
    case True
    note fill = this
    let ?cmds1 = "(if b \<noteq> 1 then cmds @ [cmdBindPipeline fanPipeline] else cmds)
                    @ [cmdDraw (fillCount p) 1 (fillOffset p) 0]"
    have c1: "pipeline_binds ?cmds1 = remdups_adj (req @ [fanPipeline])"
      using draw_step [OF b c, of fanPipeline] by simp
    have b1: "(1::int) = bound_after (req @ [fanPipeline])" by (simp add: bound_after_snoc)
    show ?thesis
    proof (cases "strokeCount p > 0")
      case True
      have "pipeline_binds ((if (1::int) \<noteq> 2 then ?cmds1 @ [cmdBindPipeline stripPipeline] else ?cmds1)
                @ [cmdDraw (strokeCount p) 1 (strokeOffset p) 0])
            = remdups_adj ((req @ [fanPipeline]) @ [stripPipeline])"
        using draw_step [OF b1 c1, of stripPipeline] by simp
      with fill True show ?thesis
        by (simp add: st record_path_def path_pipelines_def Let_def bound_after_snoc
              bound_after_def split: if_splits)
    next
      case False
      with fill c1 show ?thesis
        by (simp add: st record_path_def path_pipelines_def Let_def bound_after_snoc split: if_splits)
    qed
  next
    case False
    note nofill = this
    show ?thesis
    proof (cases "strokeCount p > 0")
      case True
      have "pipeline_binds ((if b \<noteq> 2 then cmds @ [cmdBindPipeline stripPipeline] else cmds)
                @ [cmdDraw (strokeCount p) 1 (strokeOffset p) 0])
            = remdups_adj (req @ [stripPipeline])"
        using draw_step [OF b c, of stripPipeline] by simp
      with nofill True show ?thesis
        by (simp add: st record_path_def path_pipelines_def Let_def bound_after_snoc split: if_splits)
    next
      case False
      with nofill b c show ?thesis
        by (simp add: st record_path_def path_pipelines_def Let_def)
    qed
  qed
qed

lemma fold_record_path_inv:
  assumes "fst st = bound_after req" "pipeline_binds (snd st) = remdups_adj req"
  shows "fst (fold record_path ps st) = bound_after (req @ concat (map path_pipelines ps)) \<and>
         pipeline_binds (snd (fold record_path ps st))
           = remdups_adj (req @ concat (map path_pipelines ps))"
  using assms
proof (induction ps arbitrary: st req)
  case Nil
  then show ?case by simp
next
  case (Cons p ps)
  from record_path_inv [OF Cons.prems, of p]
  have "fst (fold record_path ps (record_path p st))
          = bound_after ((req @ path_pipelines p) @ concat (map path_pipelines ps)) \<and>
        pipeline_binds (snd (fold record_path ps (record_path p st)))
          = remdups_adj ((req @ path_pipelines p) @ concat (map path_pipelines ps))"
    by (intro Cons.IH) simp_all
  then show ?case by simp
qed

lemma record_data_inv:
  assumes "fst st = bound_after req" "pipeline_binds (snd st) = remdups_adj req"
  shows "fst (record_data d st) = bound_after (req @ required_pipelines d) \<and>
         pipeline_binds (snd (record_data d st)) = remdups_adj (req @ required_pipelines d)"
proof -
  obtain b cmds where st: "st = (b, cmds)" by (cases st)
  let ?st1 = "(b, cmds @ [cmdBindDescriptorSets (descriptorSet d)])"
  let ?req1 = "req @ concat (map path_pipelines (paths d))"
  have 1: "fst ?st1 = bound_after req" "pipeline_binds (snd ?st1) = remdups_adj req"
    using assms st by (simp_all add: pipeline_binds_append)
  obtain b2 cmds2 where st2: "fold record_path (paths d) ?st1 = (b2, cmds2)"
    by (cases "fold record_path (paths d) ?st1")
  have b2: "b2 = bound_after ?req1" and c2: "pipeline_binds cmds2 = remdups_adj ?req1"
    using fold_record_path_inv [OF 1, of "paths d"] st2 by simp_all
  show ?thesis
  proof (cases "triangleCount d > 0")
    case True
    have "pipeline_binds ((if b2 \<noteq> 3 then cmds2 @ [cmdBindPipeline listPipeline] else cmds2)
                @ [cmdDraw (triangleCount d) 1 (triangleOffset d) 0])
            = remdups_adj (?req1 @ [listPipeline])"
      using draw_step [OF b2 c2, of listPipeline] by simp
    with True show ?thesis
      by (simp add: st record_data_def required_pipelines_def Let_def st2 bound_after_def
            split: if_splits)
  next
    case False
    with b2 c2 show ?thesis
      by (simp add: st record_data_def required_pipelines_def Let_def st2)
  qed
qed

lemma fold_record_data_inv:
  assumes "fst st = bound_after req" "pipeline_binds (snd st) = remdups_adj req"
  shows "fst (fold record_data ds st) = bound_after (req @ concat (map required_pipelines ds)) \<and>
         pipeline_binds (snd (fold record_data ds st))
           = remdups_adj (req @ concat (map required_pipelines ds))"
  using assms
proof (induction ds arbitrary: st req)
  case Nil
  then show ?case by simp
next
  case (Cons d ds)
  from record_data_inv [OF Cons.prems, of d]
  have "fst (fold record_data ds (record_data d st))
          = bound_after ((req @ required_pipelines d) @ concat (map required_pipelines ds)) \<and>
        pipeline_binds (snd (fold record_data ds (record_data d st)))
          = remdups_adj ((req @ required_pipelines d) @ concat (map required_pipelines ds))"
    by (intro Cons.IH) simp_all
  then show ?case by simp
qed

lemma record_cmds_binds:
  "pipeline_binds (record_cmds r) = remdups_adj (concat (map required_pipelines (drawDatas r)))"
  using fold_record_data_inv [of "(0, [cmdBindVertexBuffers])" "[]" "drawDatas r"]
  by (simp add: record_cmds_def bound_after_def)

lemma ffsf_frame:
  "case run exact_ops frame_ffsf renderer0 of
     Inl e \<Rightarrow> False
   | Inr r \<Rightarrow>
       map required_pipelines (drawDatas r) =
         [[fanPipeline], [fanPipeline], [stripPipeline], [fanPipeline]]"
  by (simp add: frame_ffsf_def fill_def stroke_def parsePaint_def parsePaint_type_def Let_def
        split_beta emptyDrawData_def solidPaint_def start_def renderer0_def init_def
        fill_path_def stroke_path_def fillPath3_def strokePath4_def set_back_def
        required_pipelines_def path_pipelines_def)

section \<open>Command emitter: properties\<close>

text \<open>
  C7, as amended. \<open>record\<close> binds a pipeline exactly when the draw it is about to issue
  needs another pipeline than the one bound last (and at the first draw): the pipelines it
  binds are the pipelines the draws need, in order, with every run of equal neighbours
  collapsed to one. For draws that need fan, fan, strip, fan it binds 3 pipelines: fan,
  strip, fan.
\<close>

theorem record_rebinds_only_on_change:
  "pipeline_binds (record_cmds r) = remdups_adj (concat (map required_pipelines (drawDatas r)))
   \<and> (concat (map required_pipelines (drawDatas r))
         = [fanPipeline, fanPipeline, stripPipeline, fanPipeline] \<longrightarrow>
       pipeline_binds (record_cmds r) = [fanPipeline, stripPipeline, fanPipeline] \<and>
       length (pipeline_binds (record_cmds r)) = 3)"
  by (simp add: record_cmds_binds)

theorem record_rebinds_only_on_change_witness:
  "case run exact_ops frame_ffsf renderer0 of
     Inl e \<Rightarrow> False
   | Inr r \<Rightarrow>
       concat (map required_pipelines (drawDatas r))
         = [fanPipeline, fanPipeline, stripPipeline, fanPipeline] \<and>
       length (pipeline_binds (record_cmds r)) = 3"
proof -
  obtain r where r: "run exact_ops frame_ffsf renderer0 = Inr r"
    and req: "concat (map required_pipelines (drawDatas r))
         = [fanPipeline, fanPipeline, stripPipeline, fanPipeline]"
    using ffsf_frame by (auto split: sum.splits)
  show ?thesis
    using record_rebinds_only_on_change [of r] req by (simp add: r)
qed

text \<open>
  C7 as stated fails: for the frame of the calls fill, fill, stroke, fill, \<open>record\<close>
  binds 3 pipelines, not 2.
\<close>

theorem ffsf_three_binds:
  "case run exact_ops frame_ffsf renderer0 of
     Inl e \<Rightarrow> False
   | Inr r \<Rightarrow>
       map required_pipelines (drawDatas r) =
         [[fanPipeline], [fanPipeline], [stripPipeline], [fanPipeline]] \<and>
       pipeline_binds (record_cmds r) = [fanPipeline, stripPipeline, fanPipeline] \<and>
       length (pipeline_binds (record_cmds r)) \<noteq> 2"
proof -
  obtain r where r: "run exact_ops frame_ffsf renderer0 = Inr r"
    and req: "map required_pipelines (drawDatas r) =
         [[fanPipeline], [fanPipeline], [stripPipeline], [fanPipeline]]"
    using ffsf_frame by (auto split: sum.splits)
  show ?thesis
    by (simp add: r req record_cmds_binds)
qed

section \<open>flush: lemmas\<close>

lemma flush_update_cong:
  assumes "textures r1 = textures r2" "dummyTexture r1 = dummyTexture r2"
    "minUniformBufferOffsetAlignment r1 = minUniformBufferOffsetAlignment r2"
  shows "flush_update r1 off ds = flush_update r2 off ds"
  using assms by (induction ds arbitrary: off) (simp_all add: texture_def Let_def split: option.splits)

lemma flush_update_registered:
  assumes "textures_registered r ds"
  shows "\<exists>ds'. flush_update r off ds = Inr ds' \<and> length ds' = length ds \<and>
           map (\<lambda>d. map_option imageView (descriptorSet d)) ds' = map (bound_view r) ds \<and>
           map paths ds' = map paths ds \<and>
           map triangleCount ds' = map triangleCount ds \<and>
           map triangleOffset ds' = map triangleOffset ds \<and>
           map dtexture ds' = map dtexture ds \<and>
           map uniformData ds' = map uniformData ds"
  using assms
proof (induction ds arbitrary: off)
  case Nil
  then show ?case by simp
next
  case (Cons d ds)
  then have reg: "textures_registered r ds" and d: "dtexture d = 0 \<or> texture r (dtexture d) \<noteq> None"
    by (simp_all add: textures_registered_def)
  from Cons.IH [OF reg, of "alignUniform (minUniformBufferOffsetAlignment r) off + sizeof_UniformData"]
  obtain ds' where ds': "flush_update r (alignUniform (minUniformBufferOffsetAlignment r) off + sizeof_UniformData) ds = Inr ds'"
    and rest: "length ds' = length ds"
      "map (\<lambda>d. map_option imageView (descriptorSet d)) ds' = map (bound_view r) ds"
      "map paths ds' = map paths ds" "map triangleCount ds' = map triangleCount ds"
      "map triangleOffset ds' = map triangleOffset ds" "map dtexture ds' = map dtexture ds"
      "map uniformData ds' = map uniformData ds"
    by blast
  show ?case
  proof (cases "dtexture d = 0")
    case True
    then show ?thesis using ds' rest by (simp add: Let_def bound_view_def)
  next
    case False
    with d obtain t where "texture r (dtexture d) = Some t" by auto
    with False show ?thesis using ds' rest by (simp add: Let_def bound_view_def)
  qed
qed

lemma flush_update_unregistered:
  assumes "\<not> textures_registered r ds"
  shows "flush_update r off ds = Inl NullPointerDereference"
  using assms
proof (induction ds arbitrary: off)
  case Nil
  then show ?case by (simp add: textures_registered_def)
next
  case (Cons d ds)
  show ?case
  proof (cases "dtexture d = 0 \<or> texture r (dtexture d) \<noteq> None")
    case True
    with Cons.prems have "\<not> textures_registered r ds" by (auto simp: textures_registered_def)
    from Cons.IH [OF this] show ?thesis
      by (auto simp: Let_def split: option.splits)
  next
    case False
    then show ?thesis by (simp add: Let_def)
  qed
qed

lemma error_is_NPD: "e = NullPointerDereference"
  by (cases e) simp

lemma alloc_steps_frame:
  "textures (flush_descriptorPool (flush_vertexBuffer (flush_uniformBuffer r))) = textures r"
  "dummyTexture (flush_descriptorPool (flush_vertexBuffer (flush_uniformBuffer r))) = dummyTexture r"
  "minUniformBufferOffsetAlignment (flush_descriptorPool (flush_vertexBuffer (flush_uniformBuffer r)))
     = minUniformBufferOffsetAlignment r"
  "drawDatas (flush_descriptorPool (flush_vertexBuffer (flush_uniformBuffer r))) = drawDatas r"
  "vertices (flush_descriptorPool (flush_vertexBuffer (flush_uniformBuffer r))) = vertices r"
  "texID (flush_descriptorPool (flush_vertexBuffer (flush_uniformBuffer r))) = texID r"
  "swapchain (flush_descriptorPool (flush_vertexBuffer (flush_uniformBuffer r))) = swapchain r"
  "bufferMemory (flush_descriptorPool (flush_vertexBuffer (flush_uniformBuffer r))) = bufferMemory r"
  by (simp_all add: flush_descriptorPool_def flush_vertexBuffer_def flush_uniformBuffer_def Let_def)

lemma alloc_steps_uniformBuffer:
  "memorySize (uniformBuffer (flush_descriptorPool (flush_vertexBuffer (flush_uniformBuffer r))))
     = grown (bufferMemory r) (memorySize (uniformBuffer r))
         (sizeof_UniformData * length (drawDatas r))"
  by (simp add: flush_descriptorPool_def flush_vertexBuffer_def flush_uniformBuffer_def Let_def
        memorySize_def grown_def)

lemma alloc_steps_vertexBuffer:
  "memorySize (vertexBuffer (flush_descriptorPool (flush_vertexBuffer (flush_uniformBuffer r))))
     = grown (bufferMemory r) (memorySize (vertexBuffer r))
         (length (vertices r) * sizeof_NVGvertex)"
  by (simp add: flush_descriptorPool_def flush_vertexBuffer_def flush_uniformBuffer_def Let_def
        memorySize_def grown_def)


lemma alloc_steps_poolSize:
  "descriptorPoolSize (flush_descriptorPool (flush_vertexBuffer (flush_uniformBuffer r)))
     = (if unat (descriptorPoolSize r) < length (drawDatas r) then of_nat (length (drawDatas r))
        else descriptorPoolSize r)"
  by (simp add: flush_descriptorPool_def flush_vertexBuffer_def flush_uniformBuffer_def Let_def)

lemma alloc_steps_pool:
  "descriptorPool (flush_descriptorPool (flush_vertexBuffer (flush_uniformBuffer r)))
     = (if unat (descriptorPoolSize r) < length (drawDatas r)
        then Some \<lparr>maxSets = of_nat (length (drawDatas r))\<rparr>
        else descriptorPool r)"
  by (simp add: flush_descriptorPool_def flush_vertexBuffer_def flush_uniformBuffer_def Let_def)

lemma alloc_steps_trace:
  "trace (flush_descriptorPool (flush_vertexBuffer (flush_uniformBuffer r)))
     = trace r
       @ (if memorySize (uniformBuffer r) < sizeof_UniformData * length (drawDatas r)
          then [createBuffer usage_uniformBuffer (sizeof_UniformData * length (drawDatas r))] else [])
       @ (if memorySize (vertexBuffer r) < length (vertices r) * sizeof_NVGvertex
          then [createBuffer usage_vertexBuffer (length (vertices r) * sizeof_NVGvertex)] else [])
       @ (if unat (descriptorPoolSize r) < length (drawDatas r)
          then [createDescriptorPool (of_nat (length (drawDatas r)))]
          else if descriptorPool r \<noteq> None then [resetDescriptorPool] else [])"
  by (simp add: flush_descriptorPool_def flush_vertexBuffer_def flush_uniformBuffer_def Let_def)

lemma flush_empty: "drawDatas r = [] \<Longrightarrow> flush r = Inr r"
  by (simp add: flush_def)

lemma flush_Inl_iff:
  "flush r = Inl e \<longleftrightarrow> \<not> textures_registered r (drawDatas r)"
proof (cases "drawDatas r = []")
  case True
  then show ?thesis by (simp add: flush_def textures_registered_def)
next
  case False
  let ?r3 = "flush_descriptorPool (flush_vertexBuffer (flush_uniformBuffer r))"
  have u: "flush_update ?r3 0 (drawDatas ?r3) = flush_update r 0 (drawDatas r)"
    by (simp add: alloc_steps_frame flush_update_cong [of ?r3 r])
  show ?thesis
  proof (cases "textures_registered r (drawDatas r)")
    case True
    from flush_update_registered [OF this, of 0] obtain ds'
      where "flush_update r 0 (drawDatas r) = Inr ds'" by blast
    with True False u show ?thesis by (simp add: flush_def Let_def)
  next
    case f: False
    from flush_update_unregistered [OF this, of 0] False u error_is_NPD [of e] f
    show ?thesis by (simp add: flush_def Let_def)
  qed
qed

lemma flush_Inr:
  assumes "flush r = Inr r'" "drawDatas r \<noteq> []"
  shows "\<exists>ds'. flush_update r 0 (drawDatas r) = Inr ds' \<and>
     r' = (flush_descriptorPool (flush_vertexBuffer (flush_uniformBuffer r)))
            \<lparr>drawDatas := [], vertices := [],
             trace := trace (flush_descriptorPool (flush_vertexBuffer (flush_uniformBuffer r)))
               @ [bufferUpdate usage_uniformBuffer (length ds'),
                  bufferUpdate usage_vertexBuffer (length (vertices r)),
                  if swapchain r
                  then renderBlock (record_cmds ((flush_descriptorPool (flush_vertexBuffer (flush_uniformBuffer r)))\<lparr>drawDatas := ds'\<rparr>))
                  else submit_and_wait (record_cmds ((flush_descriptorPool (flush_vertexBuffer (flush_uniformBuffer r)))\<lparr>drawDatas := ds'\<rparr>))]\<rparr>"
proof -
  let ?r3 = "flush_descriptorPool (flush_vertexBuffer (flush_uniformBuffer r))"
  have u: "flush_update ?r3 0 (drawDatas ?r3) = flush_update r 0 (drawDatas r)"
    by (simp add: alloc_steps_frame flush_update_cong [of ?r3 r])
  show ?thesis
    using assms u
    by (auto simp: flush_def Let_def alloc_steps_frame record_cmds_def split: sum.splits)
qed

lemma not_Inl_ex: "(\<And>e. x \<noteq> Inl e) \<Longrightarrow> \<exists>y. x = Inr y"
  by (cases x) auto



lemma capacities_le_eq:
  "uniformBuffer r' = uniformBuffer r \<Longrightarrow> vertexBuffer r' = vertexBuffer r \<Longrightarrow>
   descriptorPoolSize r' = descriptorPoolSize r \<Longrightarrow> capacities_le r r'"
  by (simp add: capacities_le_def)

lemma fill_frame:
  assumes "fill ops p s f b ps r = Inr r'"
  shows "textures r' = textures r" "texID r' = texID r"
    "uniformBuffer r' = uniformBuffer r" "vertexBuffer r' = vertexBuffer r"
    "descriptorPool r' = descriptorPool r" "descriptorPoolSize r' = descriptorPoolSize r"
    "dummyTexture r' = dummyTexture r" "swapchain r' = swapchain r"
    "\<exists>d. drawDatas r' = drawDatas r @ [d] \<and> dtexture d = paint_image p"
    "bufferMemory r' = bufferMemory r"
proof -
  from assms obtain r1 where r1: "parsePaint ops p s f f r = Inr r1"
    and r': "r' = r1\<lparr>drawDatas := set_back (drawDatas r1)
                  ((last (drawDatas r1))\<lparr>paths :=
                     fst (fold (fill_path (edgeAA r1)) ps (paths (last (drawDatas r1)), vertices r1))\<rparr>),
                vertices := snd (fold (fill_path (edgeAA r1)) ps
                                  (paths (last (drawDatas r1)), vertices r1))\<rparr>"
    unfolding fill_Inr by blast
  from parsePaint_entry [OF r1] obtain d where "drawDatas r1 = drawDatas r @ [d]"
    "dtexture d = paint_image p" by blast
  then show "\<exists>d. drawDatas r' = drawDatas r @ [d] \<and> dtexture d = paint_image p"
    by (simp add: r' set_back_snoc)
  show "textures r' = textures r" "texID r' = texID r"
    "uniformBuffer r' = uniformBuffer r" "vertexBuffer r' = vertexBuffer r"
    "descriptorPool r' = descriptorPool r" "descriptorPoolSize r' = descriptorPoolSize r"
    "dummyTexture r' = dummyTexture r" "swapchain r' = swapchain r"
    "bufferMemory r' = bufferMemory r"
    using parsePaint_frame [OF r1] by (simp_all add: r')
qed

lemma stroke_frame:
  assumes "stroke ops p s f w ps r = Inr r'"
  shows "textures r' = textures r" "texID r' = texID r"
    "uniformBuffer r' = uniformBuffer r" "vertexBuffer r' = vertexBuffer r"
    "descriptorPool r' = descriptorPool r" "descriptorPoolSize r' = descriptorPoolSize r"
    "dummyTexture r' = dummyTexture r" "swapchain r' = swapchain r"
    "\<exists>d. drawDatas r' = drawDatas r @ [d] \<and> dtexture d = paint_image p"
    "bufferMemory r' = bufferMemory r"
proof -
  from assms obtain r1 where r1: "parsePaint ops p s f w r = Inr r1"
    and r': "r' = r1\<lparr>drawDatas := set_back (drawDatas r1)
                  ((last (drawDatas r1))\<lparr>paths :=
                     fst (fold stroke_path ps (paths (last (drawDatas r1)), vertices r1))\<rparr>),
                vertices := snd (fold stroke_path ps
                                  (paths (last (drawDatas r1)), vertices r1))\<rparr>"
    unfolding stroke_Inr by blast
  from parsePaint_entry [OF r1] obtain d where "drawDatas r1 = drawDatas r @ [d]"
    "dtexture d = paint_image p" by blast
  then show "\<exists>d. drawDatas r' = drawDatas r @ [d] \<and> dtexture d = paint_image p"
    by (simp add: r' set_back_snoc)
  show "textures r' = textures r" "texID r' = texID r"
    "uniformBuffer r' = uniformBuffer r" "vertexBuffer r' = vertexBuffer r"
    "descriptorPool r' = descriptorPool r" "descriptorPoolSize r' = descriptorPoolSize r"
    "dummyTexture r' = dummyTexture r" "swapchain r' = swapchain r"
    "bufferMemory r' = bufferMemory r"
    using parsePaint_frame [OF r1] by (simp_all add: r')
qed

lemma triangles_frame:
  assumes "triangles ops p s vs r = Inr r'"
  shows "textures r' = textures r" "texID r' = texID r"
    "uniformBuffer r' = uniformBuffer r" "vertexBuffer r' = vertexBuffer r"
    "descriptorPool r' = descriptorPool r" "descriptorPoolSize r' = descriptorPoolSize r"
    "dummyTexture r' = dummyTexture r" "swapchain r' = swapchain r"
    "\<exists>d. drawDatas r' = drawDatas r @ [d] \<and> dtexture d = paint_image p"
    "bufferMemory r' = bufferMemory r"
proof -
  from assms obtain r1 where r1: "parsePaint ops p s (f_one ops) (f_one ops) r = Inr r1"
    and r': "r' = r1\<lparr>drawDatas := set_back (drawDatas r1)
                  ((last (drawDatas r1))\<lparr>triangleOffset := length (vertices r1),
                                           triangleCount := length vs\<rparr>),
                vertices := vertices r1 @ vs\<rparr>"
    unfolding triangles_Inr by blast
  from parsePaint_entry [OF r1] obtain d where "drawDatas r1 = drawDatas r @ [d]"
    "dtexture d = paint_image p" by blast
  then show "\<exists>d. drawDatas r' = drawDatas r @ [d] \<and> dtexture d = paint_image p"
    by (simp add: r' set_back_snoc)
  show "textures r' = textures r" "texID r' = texID r"
    "uniformBuffer r' = uniformBuffer r" "vertexBuffer r' = vertexBuffer r"
    "descriptorPool r' = descriptorPool r" "descriptorPoolSize r' = descriptorPoolSize r"
    "dummyTexture r' = dummyTexture r" "swapchain r' = swapchain r"
    "bufferMemory r' = bufferMemory r"
    using parsePaint_frame [OF r1] by (simp_all add: r')
qed


lemma flush_result:
  assumes "flush r = Inr r'" "drawDatas r \<noteq> []"
  shows "memorySize (uniformBuffer r')
           = grown (bufferMemory r) (memorySize (uniformBuffer r))
               (sizeof_UniformData * length (drawDatas r))"
    and "memorySize (vertexBuffer r')
           = grown (bufferMemory r) (memorySize (vertexBuffer r))
               (length (vertices r) * sizeof_NVGvertex)"
    and "descriptorPoolSize r'
           = (if unat (descriptorPoolSize r) < length (drawDatas r)
              then of_nat (length (drawDatas r)) else descriptorPoolSize r)"
    and "descriptorPool r'
           = (if unat (descriptorPoolSize r) < length (drawDatas r)
              then Some \<lparr>maxSets = of_nat (length (drawDatas r))\<rparr> else descriptorPool r)"
    and "textures r' = textures r" and "texID r' = texID r"
    and "dummyTexture r' = dummyTexture r" and "swapchain r' = swapchain r"
    and "drawDatas r' = []" and "vertices r' = []"
    and "\<exists>cmds. new_calls r r' =
           (if memorySize (uniformBuffer r) < sizeof_UniformData * length (drawDatas r)
            then [createBuffer usage_uniformBuffer (sizeof_UniformData * length (drawDatas r))]
            else [])
           @ (if memorySize (vertexBuffer r) < length (vertices r) * sizeof_NVGvertex
              then [createBuffer usage_vertexBuffer (length (vertices r) * sizeof_NVGvertex)]
              else [])
           @ (if unat (descriptorPoolSize r) < length (drawDatas r)
              then [createDescriptorPool (of_nat (length (drawDatas r)))]
              else if descriptorPool r \<noteq> None then [resetDescriptorPool] else [])
           @ [bufferUpdate usage_uniformBuffer (length (drawDatas r)),
              bufferUpdate usage_vertexBuffer (length (vertices r)),
              if swapchain r then renderBlock cmds else submit_and_wait cmds]"
    and "bufferMemory r' = bufferMemory r"
proof -
  let ?r3 = "flush_descriptorPool (flush_vertexBuffer (flush_uniformBuffer r))"
  from flush_Inr [OF assms] obtain ds' where u: "flush_update r 0 (drawDatas r) = Inr ds'"
    and r': "r' = ?r3\<lparr>drawDatas := [], vertices := [],
             trace := trace ?r3
               @ [bufferUpdate usage_uniformBuffer (length ds'),
                  bufferUpdate usage_vertexBuffer (length (vertices r)),
                  if swapchain r
                  then renderBlock (record_cmds (?r3\<lparr>drawDatas := ds'\<rparr>))
                  else submit_and_wait (record_cmds (?r3\<lparr>drawDatas := ds'\<rparr>))]\<rparr>"
    by blast
  have reg: "textures_registered r (drawDatas r)"
    using flush_update_unregistered [of r "drawDatas r" 0] u by auto
  have len: "length ds' = length (drawDatas r)"
    using flush_update_registered [OF reg, of 0] u by auto
  show "memorySize (uniformBuffer r')
           = grown (bufferMemory r) (memorySize (uniformBuffer r))
               (sizeof_UniformData * length (drawDatas r))"
    by (simp add: r' alloc_steps_uniformBuffer)
  show "memorySize (vertexBuffer r')
           = grown (bufferMemory r) (memorySize (vertexBuffer r))
               (length (vertices r) * sizeof_NVGvertex)"
    by (simp add: r' alloc_steps_vertexBuffer)
  show "bufferMemory r' = bufferMemory r"
    by (simp add: r' alloc_steps_frame)
  show "descriptorPoolSize r'
           = (if unat (descriptorPoolSize r) < length (drawDatas r)
              then of_nat (length (drawDatas r)) else descriptorPoolSize r)"
    by (simp add: r' alloc_steps_poolSize)
  show "descriptorPool r'
           = (if unat (descriptorPoolSize r) < length (drawDatas r)
              then Some \<lparr>maxSets = of_nat (length (drawDatas r))\<rparr> else descriptorPool r)"
    by (simp add: r' alloc_steps_pool)
  show "textures r' = textures r" "texID r' = texID r" "dummyTexture r' = dummyTexture r"
    "swapchain r' = swapchain r" "drawDatas r' = []" "vertices r' = []"
    by (simp_all add: r' alloc_steps_frame)
  have "new_calls r r' =
           (if memorySize (uniformBuffer r) < sizeof_UniformData * length (drawDatas r)
            then [createBuffer usage_uniformBuffer (sizeof_UniformData * length (drawDatas r))]
            else [])
           @ (if memorySize (vertexBuffer r) < length (vertices r) * sizeof_NVGvertex
              then [createBuffer usage_vertexBuffer (length (vertices r) * sizeof_NVGvertex)]
              else [])
           @ (if unat (descriptorPoolSize r) < length (drawDatas r)
              then [createDescriptorPool (of_nat (length (drawDatas r)))]
              else if descriptorPool r \<noteq> None then [resetDescriptorPool] else [])
           @ [bufferUpdate usage_uniformBuffer (length (drawDatas r)),
              bufferUpdate usage_vertexBuffer (length (vertices r)),
              if swapchain r then renderBlock (record_cmds (?r3\<lparr>drawDatas := ds'\<rparr>))
              else submit_and_wait (record_cmds (?r3\<lparr>drawDatas := ds'\<rparr>))]"
    unfolding new_calls_def r' by (simp add: alloc_steps_trace len)
  then show "\<exists>cmds. new_calls r r' =
           (if memorySize (uniformBuffer r) < sizeof_UniformData * length (drawDatas r)
            then [createBuffer usage_uniformBuffer (sizeof_UniformData * length (drawDatas r))]
            else [])
           @ (if memorySize (vertexBuffer r) < length (vertices r) * sizeof_NVGvertex
              then [createBuffer usage_vertexBuffer (length (vertices r) * sizeof_NVGvertex)]
              else [])
           @ (if unat (descriptorPoolSize r) < length (drawDatas r)
              then [createDescriptorPool (of_nat (length (drawDatas r)))]
              else if descriptorPool r \<noteq> None then [resetDescriptorPool] else [])
           @ [bufferUpdate usage_uniformBuffer (length (drawDatas r)),
              bufferUpdate usage_vertexBuffer (length (vertices r)),
              if swapchain r then renderBlock cmds else submit_and_wait cmds]"
    by blast
qed








lemma descriptor_binds_append:
  "descriptor_binds (xs @ ys) = descriptor_binds xs @ descriptor_binds ys"
  by (induction xs rule: descriptor_binds.induct) simp_all

lemma record_path_descriptors:
  "descriptor_binds (snd (record_path p st)) = descriptor_binds (snd st)"
  by (cases st) (simp add: record_path_def descriptor_binds_append)

lemma fold_record_path_descriptors:
  "descriptor_binds (snd (fold record_path ps st)) = descriptor_binds (snd st)"
  by (induction ps arbitrary: st) (simp_all add: record_path_descriptors)

lemma record_data_descriptors:
  "descriptor_binds (snd (record_data d st)) = descriptor_binds (snd st) @ [descriptorSet d]"
proof -
  obtain b cmds where st: "st = (b, cmds)" by (cases st)
  obtain b1 cmds1 where f: "fold record_path (paths d) (b, cmds @ [cmdBindDescriptorSets (descriptorSet d)]) = (b1, cmds1)"
    by (cases "fold record_path (paths d) (b, cmds @ [cmdBindDescriptorSets (descriptorSet d)])")
  have "descriptor_binds cmds1 = descriptor_binds cmds @ [descriptorSet d]"
    using fold_record_path_descriptors [of "paths d" "(b, cmds @ [cmdBindDescriptorSets (descriptorSet d)])"]
    by (simp add: f descriptor_binds_append)
  then show ?thesis
    by (simp add: st record_data_def f descriptor_binds_append)
qed

lemma fold_record_data_descriptors:
  "descriptor_binds (snd (fold record_data ds st)) = descriptor_binds (snd st) @ map descriptorSet ds"
  by (induction ds arbitrary: st) (simp_all add: record_data_descriptors)

lemma record_cmds_descriptors:
  "descriptor_binds (record_cmds r) = map descriptorSet (drawDatas r)"
  by (simp add: record_cmds_def fold_record_data_descriptors)

lemma flush_binds:
  assumes reg: "textures_registered r (drawDatas r)" and ne: "drawDatas r \<noteq> []"
  shows "\<exists>r' cmds. flush r = Inr r' \<and>
           last (trace r') = (if swapchain r then renderBlock cmds else submit_and_wait cmds) \<and>
           map (map_option imageView) (descriptor_binds cmds) = map (bound_view r) (drawDatas r)"
proof -
  obtain r' where f: "flush r = Inr r'"
    using flush_Inl_iff [of r] reg by (cases "flush r") auto
  let ?r3 = "flush_descriptorPool (flush_vertexBuffer (flush_uniformBuffer r))"
  from flush_Inr [OF f ne] obtain ds' where
    u: "flush_update r 0 (drawDatas r) = Inr ds'"
    and r': "r' = ?r3\<lparr>drawDatas := [], vertices := [],
             trace := trace ?r3
               @ [bufferUpdate usage_uniformBuffer (length ds'),
                  bufferUpdate usage_vertexBuffer (length (vertices r)),
                  if swapchain r
                  then renderBlock (record_cmds (?r3\<lparr>drawDatas := ds'\<rparr>))
                  else submit_and_wait (record_cmds (?r3\<lparr>drawDatas := ds'\<rparr>))]\<rparr>"
    by blast
  from flush_update_registered [OF reg, of 0] u
  have v: "map (\<lambda>d. map_option imageView (descriptorSet d)) ds' = map (bound_view r) (drawDatas r)"
    by auto
  let ?cmds = "record_cmds (?r3\<lparr>drawDatas := ds'\<rparr>)"
  have l: "last (trace r') = (if swapchain r then renderBlock ?cmds else submit_and_wait ?cmds)"
    by (subst r') simp
  have "map (map_option imageView) (descriptor_binds ?cmds) = map (bound_view r) (drawDatas r)"
    using v by (simp add: record_cmds_descriptors comp_def)
  with f l show ?thesis by blast
qed

lemmas eval_defs =
  fill_def stroke_def parsePaint_def parsePaint_type_def Let_def
  split_beta emptyDrawData_def solidPaint_def start_def renderer0_def init_def
  fill_path_def stroke_path_def fillPath3_def strokePath4_def set_back_def
  cancel_def imagePaint_def createTexture_def texture_def



lemma frame_textured_state:
  "case run exact_ops frame_textured renderer0 of
     Inl e \<Rightarrow> False
   | Inr r \<Rightarrow>
       map dtexture (drawDatas r) = [1, 0] \<and>
       textures r = [\<lparr>tex_format = r8Unorm, tex_id = 1, tex_width = 4, tex_height = 4\<rparr>] \<and>
       dummyTexture r = \<lparr>tex_format = r8g8b8a8Unorm, tex_id = - 1, tex_width = 2, tex_height = 2\<rparr> \<and>
       swapchain r = False"
  by (simp add: frame_textured_def eval_defs)

lemma frame_textured_flush:
  "case run exact_ops frame_textured renderer0 of
     Inl e \<Rightarrow> False
   | Inr r \<Rightarrow>
       (case flush r of
          Inl e \<Rightarrow> False
        | Inr r' \<Rightarrow>
            last (trace r') = submit_and_wait
              [cmdBindVertexBuffers,
               cmdBindDescriptorSets (Some \<lparr>uniformOffset = 0, uniformRange = 176,
                 imageView = \<lparr>tex_format = r8Unorm, tex_id = 1, tex_width = 4, tex_height = 4\<rparr>\<rparr>),
               cmdBindPipeline fanPipeline, cmdDraw 3 1 0 0,
               cmdBindDescriptorSets (Some \<lparr>uniformOffset = 256, uniformRange = 176,
                 imageView = \<lparr>tex_format = r8g8b8a8Unorm, tex_id = - 1, tex_width = 2, tex_height = 2\<rparr>\<rparr>),
               cmdDraw 3 1 3 0])"
  by (simp add: frame_textured_def eval_defs flush_def flush_uniformBuffer_def
        flush_vertexBuffer_def flush_descriptorPool_def memorySize_def sizeof_UniformData_def
        sizeof_NVGvertex_def alignUniform_def record_cmds_def record_data_def record_path_def)

lemma cancel_unchanged: "cancel r = r"
  by (simp add: cancel_def)

lemma cancel_no_calls: "new_calls r (cancel r) = []"
  by (simp add: cancel_def new_calls_def)

section \<open>flush and the frame session: properties\<close>



text \<open>
  C10. A paint with a nonzero image id that names no registered texture makes
  \<open>parsePaint\<close>, and so \<open>fill\<close>, \<open>stroke\<close> and \<open>triangles\<close>, dereference a null
  pointer; with an image id of 0 or a registered one they return, and the entry they add
  to the frame carries the image id as its texture id. \<open>flush\<close> dereferences a null
  pointer when an entry carries a nonzero texture id that is not registered. When every
  nonzero texture id of the entries is registered, \<open>flush\<close> returns with the frame
  emptied; the last call it made renders or submits the commands of the frame, and the
  descriptor sets these commands bind are, entry by entry, the image view of the texture
  of the entry, and the dummy texture for an entry of texture id 0. A \<open>flush\<close> of no
  entry returns at once.
\<close>

theorem texture_lookups:
  "(paint_image p \<noteq> 0 \<and> texture r (paint_image p) = None \<longrightarrow>
      parsePaint ops p s f w r = Inl NullPointerDereference \<and>
      fill ops p s f b ps r = Inl NullPointerDereference \<and>
      stroke ops p s f w ps r = Inl NullPointerDereference \<and>
      triangles ops p s vs r = Inl NullPointerDereference) \<and>
   (paint_image p = 0 \<or> texture r (paint_image p) \<noteq> None \<longrightarrow>
      (\<exists>r' d. parsePaint ops p s f w r = Inr r' \<and>
         drawDatas r' = drawDatas r @ [d] \<and> dtexture d = paint_image p) \<and>
      (\<exists>r' d. fill ops p s f b ps r = Inr r' \<and>
         drawDatas r' = drawDatas r @ [d] \<and> dtexture d = paint_image p) \<and>
      (\<exists>r' d. stroke ops p s f w ps r = Inr r' \<and>
         drawDatas r' = drawDatas r @ [d] \<and> dtexture d = paint_image p) \<and>
      (\<exists>r' d. triangles ops p s vs r = Inr r' \<and>
         drawDatas r' = drawDatas r @ [d] \<and> dtexture d = paint_image p)) \<and>
   (\<not> textures_registered r (drawDatas r) \<longrightarrow> flush r = Inl NullPointerDereference) \<and>
   (drawDatas r = [] \<longrightarrow> flush r = Inr r) \<and>
   (textures_registered r (drawDatas r) \<and> drawDatas r \<noteq> [] \<longrightarrow>
      (\<exists>r' cmds. flush r = Inr r' \<and>
         drawDatas r' = [] \<and> vertices r' = [] \<and> textures r' = textures r \<and>
         last (trace r') = (if swapchain r then renderBlock cmds else submit_and_wait cmds) \<and>
         length (descriptor_binds cmds) = length (drawDatas r) \<and>
         map (map_option imageView) (descriptor_binds cmds) = map (bound_view r) (drawDatas r) \<and>
         (\<forall>i < length (drawDatas r).
            map_option imageView (descriptor_binds cmds ! i) =
              (if dtexture (drawDatas r ! i) = 0 then Some (dummyTexture r)
               else texture r (dtexture (drawDatas r ! i))) \<and>
            map_option imageView (descriptor_binds cmds ! i) \<noteq> None)))"
proof (intro conjI impI)
  assume a: "paint_image p \<noteq> 0 \<and> texture r (paint_image p) = None"
  show "parsePaint ops p s f w r = Inl NullPointerDereference"
    using a by (simp add: parsePaint_Inl_iff)
  show "fill ops p s f b ps r = Inl NullPointerDereference"
    using a by (simp add: fill_Inl_iff)
  show "stroke ops p s f w ps r = Inl NullPointerDereference"
    using a by (simp add: stroke_Inl_iff)
  show "triangles ops p s vs r = Inl NullPointerDereference"
    using a by (simp add: triangles_Inl_iff)
next
  assume a: "paint_image p = 0 \<or> texture r (paint_image p) \<noteq> None"
  have "\<exists>r'. parsePaint ops p s f w r = Inr r'"
    by (rule not_Inl_ex) (use a in \<open>auto simp: parsePaint_Inl_iff\<close>)
  then obtain r1 where pp: "parsePaint ops p s f w r = Inr r1" by blast
  from parsePaint_entry [OF pp] obtain d where "drawDatas r1 = drawDatas r @ [d]" "dtexture d = paint_image p"
    by blast
  with pp show "\<exists>r' d. parsePaint ops p s f w r = Inr r' \<and>
         drawDatas r' = drawDatas r @ [d] \<and> dtexture d = paint_image p"
    by blast
  have "\<exists>r'. fill ops p s f b ps r = Inr r'"
    by (rule not_Inl_ex) (use a in \<open>auto simp: fill_Inl_iff\<close>)
  then obtain r1 where fl: "fill ops p s f b ps r = Inr r1" by blast
  from fill_frame(9) [OF fl] obtain d where "drawDatas r1 = drawDatas r @ [d]" "dtexture d = paint_image p"
    by blast
  with fl show "\<exists>r' d. fill ops p s f b ps r = Inr r' \<and>
         drawDatas r' = drawDatas r @ [d] \<and> dtexture d = paint_image p"
    by blast
  have "\<exists>r'. stroke ops p s f w ps r = Inr r'"
    by (rule not_Inl_ex) (use a in \<open>auto simp: stroke_Inl_iff\<close>)
  then obtain r1 where sk: "stroke ops p s f w ps r = Inr r1" by blast
  from stroke_frame(9) [OF sk] obtain d where "drawDatas r1 = drawDatas r @ [d]" "dtexture d = paint_image p"
    by blast
  with sk show "\<exists>r' d. stroke ops p s f w ps r = Inr r' \<and>
         drawDatas r' = drawDatas r @ [d] \<and> dtexture d = paint_image p"
    by blast
  have "\<exists>r'. triangles ops p s vs r = Inr r'"
    by (rule not_Inl_ex) (use a in \<open>auto simp: triangles_Inl_iff\<close>)
  then obtain r1 where tr: "triangles ops p s vs r = Inr r1" by blast
  from triangles_frame(9) [OF tr] obtain d where "drawDatas r1 = drawDatas r @ [d]" "dtexture d = paint_image p"
    by blast
  with tr show "\<exists>r' d. triangles ops p s vs r = Inr r' \<and>
         drawDatas r' = drawDatas r @ [d] \<and> dtexture d = paint_image p"
    by blast
next
  assume "\<not> textures_registered r (drawDatas r)"
  then show "flush r = Inl NullPointerDereference"
    by (simp add: flush_Inl_iff)
next
  assume "drawDatas r = []"
  then show "flush r = Inr r" by (rule flush_empty)
next
  assume a: "textures_registered r (drawDatas r) \<and> drawDatas r \<noteq> []"
  then have reg: "textures_registered r (drawDatas r)" and ne: "drawDatas r \<noteq> []"
    by simp_all
  from flush_binds [OF reg ne] obtain r' cmds where f: "flush r = Inr r'"
    and l: "last (trace r') = (if swapchain r then renderBlock cmds else submit_and_wait cmds)"
    and v: "map (map_option imageView) (descriptor_binds cmds) = map (bound_view r) (drawDatas r)"
    by blast
  note R = flush_result [OF f ne]
  have len: "length (descriptor_binds cmds) = length (drawDatas r)"
    using arg_cong [OF v, of length] by simp
  have each: "map_option imageView (descriptor_binds cmds ! i) =
              (if dtexture (drawDatas r ! i) = 0 then Some (dummyTexture r)
               else texture r (dtexture (drawDatas r ! i))) \<and>
            map_option imageView (descriptor_binds cmds ! i) \<noteq> None"
    if i: "i < length (drawDatas r)" for i
  proof -
    have "map (map_option imageView) (descriptor_binds cmds) ! i
            = map (bound_view r) (drawDatas r) ! i"
      by (simp only: v)
    then have e: "map_option imageView (descriptor_binds cmds ! i) = bound_view r (drawDatas r ! i)"
      using i len by simp
    have "dtexture (drawDatas r ! i) = 0 \<or> texture r (dtexture (drawDatas r ! i)) \<noteq> None"
      using reg i by (simp add: textures_registered_def list_all_length)
    then have "bound_view r (drawDatas r ! i) \<noteq> None" by (auto simp: bound_view_def)
    with e show ?thesis by (simp add: bound_view_def)
  qed
  from f R(5,9,10) l len v each
  show "\<exists>r' cmds. flush r = Inr r' \<and>
         drawDatas r' = [] \<and> vertices r' = [] \<and> textures r' = textures r \<and>
         last (trace r') = (if swapchain r then renderBlock cmds else submit_and_wait cmds) \<and>
         length (descriptor_binds cmds) = length (drawDatas r) \<and>
         map (map_option imageView) (descriptor_binds cmds) = map (bound_view r) (drawDatas r) \<and>
         (\<forall>i < length (drawDatas r).
            map_option imageView (descriptor_binds cmds ! i) =
              (if dtexture (drawDatas r ! i) = 0 then Some (dummyTexture r)
               else texture r (dtexture (drawDatas r ! i))) \<and>
            map_option imageView (descriptor_binds cmds ! i) \<noteq> None)"
    by blast
qed

text \<open>
  A frame of two fills, the first with the registered texture 1, the second with no image:
  \<open>flush\<close> submits commands that bind the view of texture 1 at offset 0, then the
  dummy texture at offset 256.
  A fill with the unregistered image 2 dereferences a null pointer, and so does the
  \<open>flush\<close> of the frame once texture 1 is deleted.
\<close>

theorem texture_lookups_witness:
  "case run exact_ops frame_textured renderer0 of
     Inl e \<Rightarrow> False
   | Inr r \<Rightarrow>
       map dtexture (drawDatas r) = [1, 0] \<and>
       textures_registered r (drawDatas r) \<and>
       (case flush r of
          Inl e \<Rightarrow> False
        | Inr r' \<Rightarrow>
            drawDatas r' = [] \<and> vertices r' = [] \<and>
            last (trace r') = submit_and_wait
              [cmdBindVertexBuffers,
               cmdBindDescriptorSets (Some \<lparr>uniformOffset = 0, uniformRange = 176,
                 imageView = \<lparr>tex_format = r8Unorm, tex_id = 1, tex_width = 4, tex_height = 4\<rparr>\<rparr>),
               cmdBindPipeline fanPipeline, cmdDraw 3 1 0 0,
               cmdBindDescriptorSets (Some \<lparr>uniformOffset = 256, uniformRange = 176,
                 imageView = \<lparr>tex_format = r8g8b8a8Unorm, tex_id = - 1, tex_width = 2, tex_height = 2\<rparr>\<rparr>),
               cmdDraw 3 1 3 0] \<and>
            map (map_option imageView) (descriptor_binds
              [cmdBindVertexBuffers,
               cmdBindDescriptorSets (Some \<lparr>uniformOffset = 0, uniformRange = 176,
                 imageView = \<lparr>tex_format = r8Unorm, tex_id = 1, tex_width = 4, tex_height = 4\<rparr>\<rparr>),
               cmdBindPipeline fanPipeline, cmdDraw 3 1 0 0,
               cmdBindDescriptorSets (Some \<lparr>uniformOffset = 256, uniformRange = 176,
                 imageView = \<lparr>tex_format = r8g8b8a8Unorm, tex_id = - 1, tex_width = 2, tex_height = 2\<rparr>\<rparr>),
               cmdDraw 3 1 3 0]) =
              [Some \<lparr>tex_format = r8Unorm, tex_id = 1, tex_width = 4, tex_height = 4\<rparr>,
               Some \<lparr>tex_format = r8g8b8a8Unorm, tex_id = - 1, tex_width = 2, tex_height = 2\<rparr>]) \<and>
       (\<exists>r' d. fill exact_ops (imagePaint 1) noScissor 1 [] [fillPath3] r = Inr r' \<and>
          drawDatas r' = drawDatas r @ [d] \<and> dtexture d = 1) \<and>
       fill exact_ops (imagePaint 2) noScissor 1 [] [fillPath3] r = Inl NullPointerDereference \<and>
       flush (snd (deleteTexture 1 r)) = Inl NullPointerDereference"
proof -
  obtain r where r: "run exact_ops frame_textured renderer0 = Inr r"
    and dt: "map dtexture (drawDatas r) = [1, 0]"
    and tx: "textures r = [\<lparr>tex_format = r8Unorm, tex_id = 1, tex_width = 4, tex_height = 4\<rparr>]"
    and dm: "dummyTexture r = \<lparr>tex_format = r8g8b8a8Unorm, tex_id = - 1, tex_width = 2, tex_height = 2\<rparr>"
    and sw: "swapchain r = False"
    using frame_textured_state by (auto split: sum.splits)
  from dt obtain d1 d2 where ds: "drawDatas r = [d1, d2]" "dtexture d1 = 1" "dtexture d2 = 0"
    by (auto simp: map_eq_Cons_conv)
  have ne: "drawDatas r \<noteq> []" by (simp add: ds)
  have t1: "texture r 1 = Some \<lparr>tex_format = r8Unorm, tex_id = 1, tex_width = 4, tex_height = 4\<rparr>"
    and t2: "texture r 2 = None"
    by (simp_all add: texture_def tx)
  have reg: "textures_registered r (drawDatas r)"
    by (simp add: textures_registered_def ds t1)
  let ?r2 = "snd (deleteTexture 1 r)"
  have del: "drawDatas ?r2 = drawDatas r" "textures ?r2 = []"
    by (simp_all add: deleteTexture_def tx)
  have unreg: "\<not> textures_registered ?r2 (drawDatas ?r2)"
    by (simp add: textures_registered_def del ds texture_def)
  have i1: "paint_image (imagePaint 1) = 1" and i2: "paint_image (imagePaint 2) = 2"
    by (simp_all add: imagePaint_def)
  note A = texture_lookups [of "imagePaint 1" r exact_ops noScissor 1 1 "[]" "[fillPath3]" "[]"]
  note B = texture_lookups [of "imagePaint 2" r exact_ops noScissor 1 1 "[]" "[fillPath3]" "[]"]
  note C = texture_lookups [of "imagePaint 2" ?r2 exact_ops noScissor 1 1 "[]" "[fillPath3]" "[]"]
  have a: "\<exists>r' d. fill exact_ops (imagePaint 1) noScissor 1 [] [fillPath3] r = Inr r' \<and>
          drawDatas r' = drawDatas r @ [d] \<and> dtexture d = 1"
    using A by (simp add: i1 t1)
  have b: "fill exact_ops (imagePaint 2) noScissor 1 [] [fillPath3] r = Inl NullPointerDereference"
    using B by (simp add: i2 t2)
  have c: "flush ?r2 = Inl NullPointerDereference"
    using C unreg by blast
  from A reg ne obtain r' cmds where f: "flush r = Inr r'"
    and e: "drawDatas r' = []" "vertices r' = []"
    and l: "last (trace r') = (if swapchain r then renderBlock cmds else submit_and_wait cmds)"
    and v: "map (map_option imageView) (descriptor_binds cmds) = map (bound_view r) (drawDatas r)"
    by blast
  have l': "last (trace r') = submit_and_wait cmds" using l by (simp add: sw)
  have v': "map (map_option imageView) (descriptor_binds cmds) =
              [Some \<lparr>tex_format = r8Unorm, tex_id = 1, tex_width = 4, tex_height = 4\<rparr>,
               Some \<lparr>tex_format = r8g8b8a8Unorm, tex_id = - 1, tex_width = 2, tex_height = 2\<rparr>]"
    by (simp add: v ds bound_view_def t1 dm)
  have k: "last (trace r') = submit_and_wait
              [cmdBindVertexBuffers,
               cmdBindDescriptorSets (Some \<lparr>uniformOffset = 0, uniformRange = 176,
                 imageView = \<lparr>tex_format = r8Unorm, tex_id = 1, tex_width = 4, tex_height = 4\<rparr>\<rparr>),
               cmdBindPipeline fanPipeline, cmdDraw 3 1 0 0,
               cmdBindDescriptorSets (Some \<lparr>uniformOffset = 256, uniformRange = 176,
                 imageView = \<lparr>tex_format = r8g8b8a8Unorm, tex_id = - 1, tex_width = 2, tex_height = 2\<rparr>\<rparr>),
               cmdDraw 3 1 3 0]"
    using frame_textured_flush by (simp add: r f)
  have g: "map (map_option imageView) (descriptor_binds
              [cmdBindVertexBuffers,
               cmdBindDescriptorSets (Some \<lparr>uniformOffset = 0, uniformRange = 176,
                 imageView = \<lparr>tex_format = r8Unorm, tex_id = 1, tex_width = 4, tex_height = 4\<rparr>\<rparr>),
               cmdBindPipeline fanPipeline, cmdDraw 3 1 0 0,
               cmdBindDescriptorSets (Some \<lparr>uniformOffset = 256, uniformRange = 176,
                 imageView = \<lparr>tex_format = r8g8b8a8Unorm, tex_id = - 1, tex_width = 2, tex_height = 2\<rparr>\<rparr>),
               cmdDraw 3 1 3 0]) =
              [Some \<lparr>tex_format = r8Unorm, tex_id = 1, tex_width = 4, tex_height = 4\<rparr>,
               Some \<lparr>tex_format = r8g8b8a8Unorm, tex_id = - 1, tex_width = 2, tex_height = 2\<rparr>]"
    using v' l' k by simp
  show ?thesis using a g by (simp add: r dt reg f e k b c)
qed

text \<open>
  C3 fails on the code: the body of \<open>cancel\<close> is empty. After \<open>start\<close>, one \<open>fill\<close>
  of a path of three vertices and \<open>cancel\<close>, the entry and the three vertices are still
  there, and a \<open>flush\<close> that follows submits the draw of the cancelled frame.
\<close>

theorem cancel_keeps_the_frame:
  "case run exact_ops frame_cancelled renderer0 of
     Inl e \<Rightarrow> False
   | Inr r \<Rightarrow>
       length (drawDatas r) = 1 \<and> length (vertices r) = 3 \<and>
       (case flush r of
          Inl e \<Rightarrow> False
        | Inr r' \<Rightarrow>
            last (trace r') =
              submit_and_wait
                [cmdBindVertexBuffers,
                 cmdBindDescriptorSets
                   (Some \<lparr>uniformOffset = 0, uniformRange = 176,
                          imageView = \<lparr>tex_format = r8g8b8a8Unorm, tex_id = - 1,
                                       tex_width = 2, tex_height = 2\<rparr>\<rparr>),
                 cmdBindPipeline fanPipeline,
                 cmdDraw 3 1 0 0])"
  by (simp add: frame_cancelled_def eval_defs flush_def flush_uniformBuffer_def
        flush_vertexBuffer_def flush_descriptorPool_def memorySize_def sizeof_UniformData_def
        sizeof_NVGvertex_def alignUniform_def record_cmds_def record_data_def record_path_def)

end
